theory Spec2Isabelle
  imports Main "HOL-Library.Sublist" "HOL-Library.Char_ord"
begin

section \<open>Text primitives of the script\<close>

text \<open>
  The script \<^verbatim>\<open>scripts/reverse-engineering/extract_decoder.py\<close> reads one text file,
  searches it with \<^verbatim>\<open>re.search\<close> and \<^verbatim>\<open>str.find\<close>, and writes one text file.
  A Python \<^verbatim>\<open>str\<close> is modelled as a \<^typ>\<open>string\<close>: the text that \<^verbatim>\<open>f.read()\<close>
  returns and the text handed to \<^verbatim>\<open>f.write\<close>. Neither the patterns nor the markers
  distinguish characters other than the line feed and the members of the two character
  classes, all of which are ASCII.
\<close>

definition newline :: char where
  "newline = CHR 0x0A"

definition quote :: char where
  "quote = CHR 0x27"

definition backslash :: char where
  "backslash = CHR 0x5C"

text \<open>
  \<^verbatim>\<open>s.find(sub)\<close> on the suffix \<open>s\<close>: the lowest offset at which \<open>sub\<close> starts,
  \<open>None\<close> standing for Python's \<^verbatim>\<open>-1\<close>.
\<close>

fun find_first :: "string \<Rightarrow> string \<Rightarrow> nat option" where
  "find_first sub [] = (if sub = [] then Some 0 else None)"
| "find_first sub (c # cs) =
     (if prefix sub (c # cs) then Some 0 else map_option Suc (find_first sub cs))"

text \<open>
  \<^verbatim>\<open>s.find(sub, start)\<close> for \<open>start \<ge> 0\<close>: the lowest index \<open>\<ge> start\<close> at which
  \<open>sub\<close> starts; a start beyond the end of \<open>s\<close> finds nothing.
\<close>

definition find_str :: "string \<Rightarrow> string \<Rightarrow> nat \<Rightarrow> nat option" where
  "find_str s sub start =
     (if start \<le> length s
      then map_option (\<lambda>k. start + k) (find_first sub (drop start s))
      else None)"

text \<open>The slice \<^verbatim>\<open>s[i:j]\<close> for indices \<open>0 \<le> i\<close>, \<open>0 \<le> j\<close>.\<close>

definition slice :: "string \<Rightarrow> nat \<Rightarrow> nat \<Rightarrow> string" where
  "slice s i j = take (j - i) (drop i s)"

section \<open>The regular expressions\<close>

text \<open>
  Every pattern of the script is a sequence of three kinds of items: literal text
  (escaped punctuation such as \<^verbatim>\<open>\(\<close> included), a greedy character class
  \<^verbatim>\<open>[...]+\<close>, and the lazy wildcard \<^verbatim>\<open>.*?\<close>, whose dot does not match a line feed
  since no flag is passed. A character class is the list of its ranges.
\<close>

datatype atom = Lit string | Plus "(char \<times> char) list" | Lazy

definition in_class :: "(char \<times> char) list \<Rightarrow> char \<Rightarrow> bool" where
  "in_class rs c = (\<exists>(lo, hi) \<in> set rs. lo \<le> c \<and> c \<le> hi)"

fun push :: "char \<Rightarrow> string list \<Rightarrow> string list" where
  "push c [] = [[c]]"
| "push c (d # ps) = (c # d) # ps"

text \<open>
  The backtracking matcher anchored at the head of the text. The result lists the text
  consumed by each item of the pattern. A lazy wildcard first tries to consume nothing
  and grows by one character only when the rest of the pattern fails; a greedy class
  first tries to consume one more character and gives it up only when that fails.
\<close>

fun match_here :: "atom list \<Rightarrow> string \<Rightarrow> string list option" where
  "match_here [] s = Some []"
| "match_here (Lit l # as) s =
     (if prefix l s then map_option (Cons l) (match_here as (drop (length l) s)) else None)"
| "match_here (Lazy # as) s =
     (case match_here as s of
        Some ps \<Rightarrow> Some ([] # ps)
      | None \<Rightarrow>
          (case s of
             [] \<Rightarrow> None
           | c # cs \<Rightarrow>
               if c = newline then None
               else map_option (push c) (match_here (Lazy # as) cs)))"
| "match_here (Plus rs # as) s =
     (case s of
        [] \<Rightarrow> None
      | c # cs \<Rightarrow>
          if in_class rs c
          then (case match_here (Plus rs # as) cs of
                  Some ps \<Rightarrow> Some (push c ps)
                | None \<Rightarrow> map_option (Cons [c]) (match_here as cs))
          else None)"

text \<open>\<^verbatim>\<open>re.search\<close>: the match at the leftmost position that has one.\<close>

fun search :: "atom list \<Rightarrow> string \<Rightarrow> string list option" where
  "search pat [] = match_here pat []"
| "search pat (c # cs) =
     (case match_here pat (c # cs) of
        Some ps \<Rightarrow> Some ps
      | None \<Rightarrow> search pat cs)"

text \<open>\<^verbatim>\<open>m.group(0)\<close> is the whole matched text.\<close>

definition group0 :: "string list \<Rightarrow> string" where
  "group0 ps = concat ps"

section \<open>The patterns and markers of the script\<close>

text \<open>The classes \<^verbatim>\<open>[a-zA-Z0-9_,]\<close> and \<^verbatim>\<open>[0-9a-f]\<close>.\<close>

definition ident_class :: "(char \<times> char) list" where
  "ident_class = [(CHR ''a'', CHR ''z''), (CHR ''A'', CHR ''Z''), (CHR ''0'', CHR ''9''),
                  (CHR ''_'', CHR ''_''), (CHR '','', CHR '','')]"

definition hex_class :: "(char \<times> char) list" where
  "hex_class = [(CHR ''0'', CHR ''9''), (CHR ''a'', CHR ''f'')]"

text \<open>
  \<^verbatim>\<open>function _0x8b05\(\)\{.*?return _0x8b05\(\);\}\<close>: the start token, the wildcard
  and the end token of the lookup-table function.
\<close>

definition table_start :: string where
  "table_start = ''function _0x8b05(){''"

definition table_end :: string where
  "table_end = ''return _0x8b05();}''"

definition pat_8b05 :: "atom list" where
  "pat_8b05 = [Lit table_start, Lazy, Lit table_end]"

text \<open>
  \<^verbatim>\<open>function _0xb4a0\([a-zA-Z0-9_,]+\)\{.*?_0xb4a0\([a-zA-Z0-9_,]+\)\;\}\<close> and
  \<^verbatim>\<open>function _0xb4a0\([a-zA-Z0-9_,]+\)\{.*?return _0x8b0550\[t\];\}\<close>: both open with
  \<^verbatim>\<open>function _0xb4a0\([a-zA-Z0-9_,]+\)\{\<close> and differ in what follows the wildcard.
\<close>

definition b4a0_open :: "atom list" where
  "b4a0_open = [Lit ''function _0xb4a0('', Plus ident_class, Lit ''){'']"

definition b4a0_end :: "atom list" where
  "b4a0_end = [Lit ''_0xb4a0('', Plus ident_class, Lit '');}'']"

definition b4a0_alt_end :: "atom list" where
  "b4a0_alt_end = [Lit ''return _0x8b0550[t];}'']"

definition pat_b4a0 :: "atom list" where
  "pat_b4a0 = b4a0_open @ [Lazy] @ b4a0_end"

definition pat_b4a0_alt :: "atom list" where
  "pat_b4a0_alt = b4a0_open @ [Lazy] @ b4a0_alt_end"

text \<open>\<^verbatim>\<open>\(function\(_0x9dcbec,_0x4ab1b0\)\{.*?\(_0x8b05,0x[0-9a-f]+\)\)\;\<close>\<close>

definition pat_shuffle :: "atom list" where
  "pat_shuffle = [Lit ''(function(_0x9dcbec,_0x4ab1b0){'', Lazy, Lit ''(_0x8b05,0x'',
                  Plus hex_class, Lit ''));'']"

text \<open>
  \<^verbatim>\<open>window\['ZpQw9XkLmN8c3vR3'\]='(.*?)';\<close>: the text up to and including the opening
  quote, the captured wildcard, and the closing quote with the semicolon.
\<close>

definition config_open :: string where
  "config_open = ''window['' @ [quote] @ ''ZpQw9XkLmN8c3vR3'' @ [quote] @ '']='' @ [quote]"

definition config_close :: string where
  "config_close = [quote] @ '';''"

definition pat_config :: "atom list" where
  "pat_config = [Lit config_open, Lazy, Lit config_close]"

text \<open>\<^verbatim>\<open>m.group(1)\<close> of the configuration pattern: its group is the second item.\<close>

definition group1 :: "string list \<Rightarrow> string" where
  "group1 ps = (case ps of [a, p, b] \<Rightarrow> p | _ \<Rightarrow> [])"

definition b4a0_start :: string where
  "b4a0_start = ''function _0xb4a0''"

definition shuffle_start :: string where
  "shuffle_start = ''(function(_0x9dcbec''"

definition shuffle_next :: string where
  "shuffle_next = '',!(function''"

section \<open>The four extractions\<close>

text \<open>
  Each block of \<^verbatim>\<open>extract_decoder\<close> yields the messages it prints, in order, and the
  fragment it found; \<open>None\<close> is the block's \<^verbatim>\<open>return\<close>.
\<close>

type_synonym block = "string list \<times> string option"

definition func_8b05 :: "string \<Rightarrow> block" where
  "func_8b05 content =
     (case search pat_8b05 content of
        None \<Rightarrow> ([''Could not find _0x8b05 function''], None)
      | Some m \<Rightarrow> ([], Some (group0 m)))"

definition func_b4a0 :: "string \<Rightarrow> block" where
  "func_b4a0 content =
     (let match_b4a0 = search pat_b4a0 content;
          match_b4a0 = (case match_b4a0 of
                          None \<Rightarrow> search pat_b4a0_alt content
                        | Some m \<Rightarrow> Some m)
      in case match_b4a0 of
           None \<Rightarrow>
             (case find_str content b4a0_start 0 of
                Some start_idx \<Rightarrow>
                  (case find_str content shuffle_start start_idx of
                     Some end_idx \<Rightarrow> ([], Some (slice content start_idx end_idx))
                   | None \<Rightarrow> ([''Could not find end of _0xb4a0''], None))
              | None \<Rightarrow> ([''Could not find _0xb4a0 function''], None))
         | Some m \<Rightarrow> ([], Some (group0 m)))"

definition shuffle_iife :: "string \<Rightarrow> block" where
  "shuffle_iife content =
     (case search pat_shuffle content of
        None \<Rightarrow>
          (case find_str content shuffle_start 0 of
             Some start_idx \<Rightarrow>
               (case find_str content shuffle_next start_idx of
                  Some end_idx \<Rightarrow>
                    ([''Could not find shuffle IIFE''], Some (slice content start_idx end_idx))
                | None \<Rightarrow>
                    ([''Could not find shuffle IIFE'', ''Could not find end of shuffle IIFE''],
                     None))
           | None \<Rightarrow> ([''Could not find shuffle IIFE''], None))
      | Some m \<Rightarrow> ([], Some (group0 m)))"

definition config_str :: "string \<Rightarrow> block" where
  "config_str content =
     (case search pat_config content of
        None \<Rightarrow> ([''Could not find config string''], None)
      | Some m \<Rightarrow> ([], Some (group1 m)))"

section \<open>The run\<close>

text \<open>
  The world the script acts on: the files it can see, by path, and the lines printed so
  far. Opening a file that does not exist for reading raises.
\<close>

datatype io_error = FileNotFoundError

record world =
  files :: "string \<rightharpoonup> string"
  console :: "string list"

definition dir :: string where
  "dir = ''C:'' @ [backslash] @ ''Users'' @ [backslash] @ ''Nicks'' @ [backslash] @ ''Desktop''
         @ [backslash] @ ''Flyx-main'' @ [backslash] @ ''scripts'' @ [backslash]
         @ ''reverse-engineering'' @ [backslash]"

definition html_path :: string where
  "html_path = dir @ ''dlhd-stream.html''"

definition output_path :: string where
  "output_path = dir @ ''decoder_parts.js''"

definition print :: "string \<Rightarrow> world \<Rightarrow> world" where
  "print msg w = w\<lparr>console := console w @ [msg]\<rparr>"

text \<open>\<^verbatim>\<open>open(path, 'w')\<close> creates the file or empties it; \<^verbatim>\<open>f.write\<close> appends.\<close>

definition open_w :: "string \<Rightarrow> world \<Rightarrow> world" where
  "open_w path w = w\<lparr>files := (files w)(path \<mapsto> [])\<rparr>"

definition fwrite :: "string \<Rightarrow> string \<Rightarrow> world \<Rightarrow> world" where
  "fwrite path text w =
     w\<lparr>files := (files w)(path \<mapsto> (case files w path of None \<Rightarrow> [] | Some old \<Rightarrow> old) @ text)\<rparr>"

definition success_message :: string where
  "success_message = ''Successfully extracted decoder parts to '' @ output_path"

text \<open>Lines 76 to 83: the five writes and the closing message.\<close>

definition write_output :: "string \<Rightarrow> string \<Rightarrow> string \<Rightarrow> string \<Rightarrow> world \<Rightarrow> world" where
  "write_output f1 f2 f3 cfg w =
     (let w = open_w output_path w;
          w = fwrite output_path (f1 @ [newline]) w;
          w = fwrite output_path (f2 @ [newline]) w;
          w = fwrite output_path (f3 @ [newline]) w;
          w = fwrite output_path (''const configString = '' @ [quote] @ cfg @ [quote] @ '';''
                                  @ [newline]) w;
          w = fwrite output_path (''module.exports = { _0xb4a0, configString };'' @ [newline]) w
      in print success_message w)"

text \<open>
  One block of the run: its messages are printed, and the run goes on with the fragment
  or ends there.
\<close>

definition step :: "block \<Rightarrow> (string \<Rightarrow> world \<Rightarrow> world) \<Rightarrow> world \<Rightarrow> world" where
  "step b k w =
     (let w' = foldl (\<lambda>w msg. print msg w) w (fst b)
      in case snd b of None \<Rightarrow> w' | Some frag \<Rightarrow> k frag w')"

definition extract_from :: "string \<Rightarrow> world \<Rightarrow> world" where
  "extract_from content =
     step (func_8b05 content) (\<lambda>f1.
     step (func_b4a0 content) (\<lambda>f2.
     step (shuffle_iife content) (\<lambda>f3.
     step (config_str content) (\<lambda>cfg.
     write_output f1 f2 f3 cfg))))"

definition extract_decoder :: "world \<Rightarrow> io_error + world" where
  "extract_decoder w =
     (case files w html_path of
        None \<Rightarrow> Inl FileNotFoundError
      | Some content \<Rightarrow> Inr (extract_from content w))"

section \<open>Sample documents\<close>

text \<open>
  Small documents in the shape the script expects, used to exercise the statements
  below on concrete inputs; the first is the end-to-end scenario of the specification.
\<close>

definition sample_table :: string where
  "sample_table = ''function _0x8b05(){return [1,2,3];return _0x8b05();}''"

definition sample_decoder :: string where
  "sample_decoder = ''function _0xb4a0(a,b){return _0xb4a0(a,b);}''"

definition sample_shuffle :: string where
  "sample_shuffle = ''(function(_0x9dcbec,_0x4ab1b0){}(_0x8b05,0x58bbd));''"

definition sample_config :: "string \<Rightarrow> string" where
  "sample_config payload = config_open @ payload @ config_close"

definition doc_ok :: string where
  "doc_ok = ''<script>'' @ sample_table @ sample_decoder @ sample_shuffle
            @ sample_config ''abc123'' @ ''</script>''"

definition doc_no_config :: string where
  "doc_no_config = ''<script>'' @ sample_table @ sample_decoder @ sample_shuffle @ ''</script>''"

text \<open>A world holding the document and an older output file.\<close>

definition world_of :: "string \<Rightarrow> world" where
  "world_of content = \<lparr>files = [html_path \<mapsto> content, output_path \<mapsto> ''old''], console = []\<rparr>"

text \<open>Variants of the decoder and of the shuffle routine that only a fallback can find.\<close>

definition loose_decoder :: string where
  "loose_decoder = ''function _0xb4a0(a,b){return 1;}''"


definition loose_shuffle :: string where
  "loose_shuffle = ''(function(_0x9dcbec,_0x4ab1b0){}(_0x8b05,9))''"

definition doc_no_decoder :: string where
  "doc_no_decoder = sample_table @ sample_shuffle @ sample_config ''abc123''"

definition doc_decoder_open :: string where
  "doc_decoder_open = sample_table @ loose_decoder @ sample_config ''abc123''"



definition doc_positional :: string where
  "doc_positional = sample_table @ loose_decoder @ ''var x=1;'' @ sample_shuffle
                    @ sample_config ''abc123''"

definition doc_shuffle_fallback :: string where
  "doc_shuffle_fallback = sample_table @ sample_decoder @ loose_shuffle
                          @ '',!(function(){})();'' @ sample_config ''abc123''"

text \<open>The lookup-table function with a line break inside its body.\<close>

definition doc_split_table :: string where
  "doc_split_table = ''function _0x8b05(){return [1,2,3];'' @ [newline] @ ''return _0x8b05();}''
                     @ sample_decoder @ sample_shuffle @ sample_config ''abc123''"

text \<open>A document whose configuration assignment has an empty payload.\<close>

definition doc_empty_payload :: string where
  "doc_empty_payload = sample_table @ sample_decoder @ sample_shuffle @ sample_config []"

text \<open>A world with the document only, an earlier line on the console and no output file.\<close>

definition bare_world :: "string \<Rightarrow> world" where
  "bare_world content = \<lparr>files = [html_path \<mapsto> content], console = [''earlier line'']\<rparr>"

text \<open>
  A document in which the start token of the lookup-table function occurs twice, the
  first time followed by a line break.
\<close>

definition doc_two_tables :: string where
  "doc_two_tables = table_start @ [newline] @ sample_table @ sample_decoder @ sample_shuffle
                    @ sample_config ''abc123''"



section \<open>Facts about the literal search\<close>

lemma find_first_Some:
  "find_first sub s = Some k \<Longrightarrow>
     k \<le> length s \<and> prefix sub (drop k s) \<and> (\<forall>j<k. \<not> prefix sub (drop j s))"
proof (induction s arbitrary: k)
  case Nil
  then show ?case by (auto split: if_splits)
next
  case (Cons c cs)
  show ?case
  proof (cases "prefix sub (c # cs)")
    case True
    with Cons.prems show ?thesis by simp
  next
    case False
    with Cons.prems obtain k' where k': "find_first sub cs = Some k'" "k = Suc k'"
      by auto
    from Cons.IH[OF k'(1)] False k'(2) show ?thesis
      by (auto simp: less_Suc_eq_0_disj)
  qed
qed

lemma find_first_None: "find_first sub s = None \<Longrightarrow> \<not> prefix sub (drop j s)"
proof (induction s arbitrary: j)
  case Nil
  then show ?case by (auto split: if_splits)
next
  case (Cons c cs)
  then show ?case by (cases j) (auto split: if_splits)
qed

lemma find_str_Some:
  "find_str s sub i = Some j \<Longrightarrow>
     i \<le> j \<and> j \<le> length s \<and> prefix sub (drop j s)
     \<and> (\<forall>k. i \<le> k \<and> k < j \<longrightarrow> \<not> prefix sub (drop k s))"
proof -
  assume a: "find_str s sub i = Some j"
  then obtain k where k: "i \<le> length s" "find_first sub (drop i s) = Some k" "j = i + k"
    by (auto simp: find_str_def split: if_splits)
  from find_first_Some[OF k(2)]
  have f: "k \<le> length s - i" "prefix sub (drop (i + k) s)"
    "\<And>m. m < k \<Longrightarrow> \<not> prefix sub (drop (i + m) s)"
    by (auto simp: add.commute)
  have "\<not> prefix sub (drop n s)" if "i \<le> n" "n < j" for n
    using f(3)[of "n - i"] that k(3) by simp
  with f k show ?thesis by auto
qed

lemma find_str_None:
  "find_str s sub i = None \<Longrightarrow> i \<le> length s \<Longrightarrow> \<not> prefix sub (drop (i + k) s)"
  using find_first_None[of sub "drop i s" k]
  by (auto simp: find_str_def add.commute split: if_splits)

lemma find_str_0_None_iff:
  "find_str s sub 0 = None \<longleftrightarrow> (\<forall>k. \<not> prefix sub (drop k s))"
proof
  assume "find_str s sub 0 = None"
  then show "\<forall>k. \<not> prefix sub (drop k s)"
    using find_str_None[of s sub 0] by simp
next
  assume a: "\<forall>k. \<not> prefix sub (drop k s)"
  show "find_str s sub 0 = None"
  proof (cases "find_str s sub 0")
    case (Some j)
    from find_str_Some[OF this] a show ?thesis by blast
  qed simp
qed

section \<open>Facts about the matcher\<close>

lemma push_length: "ps \<noteq> [] \<Longrightarrow> length (push c ps) = length ps"
  by (cases ps) auto

lemma push_concat: "ps \<noteq> [] \<Longrightarrow> concat (push c ps) = c # concat ps"
  by (cases ps) auto

lemma match_Lit_iff:
  "match_here (Lit l # as) s = Some ps \<longleftrightarrow>
     (\<exists>r. ps = l # r \<and> prefix l s \<and> match_here as (drop (length l) s) = Some r)"
  by auto

lemma match_Lazy_Some:
  "match_here as s = Some r \<Longrightarrow> match_here (Lazy # as) s = Some ([] # r)"
  by simp

lemma match_Lazy_None_Nil:
  "match_here as [] = None \<Longrightarrow> match_here (Lazy # as) [] = None"
  by simp

lemma match_Lazy_None_Cons:
  "match_here as (c # cs) = None \<Longrightarrow>
     match_here (Lazy # as) (c # cs) =
       (if c = newline then None else map_option (push c) (match_here (Lazy # as) cs))"
  by simp

lemma match_Plus_Nil: "match_here (Plus rs # as) [] = None"
  by simp

lemma match_Plus_Cons:
  "match_here (Plus rs # as) (c # cs) =
     (if in_class rs c
      then (case match_here (Plus rs # as) cs of
              Some ps \<Rightarrow> Some (push c ps)
            | None \<Rightarrow> map_option (Cons [c]) (match_here as cs))
      else None)"
  by simp

lemma match_here_length: "match_here as s = Some ps \<Longrightarrow> length ps = length as"
proof (induction as s arbitrary: ps rule: match_here.induct)
  case (1 s)
  then show ?case by simp
next
  case (2 l as s)
  from 2(2) obtain r where r: "prefix l s" "match_here as (drop (length l) s) = Some r"
    "ps = l # r"
    unfolding match_Lit_iff by blast
  from 2(1)[OF r(1,2)] r(3) show ?case by simp
next
  case (3 as s)
  show ?case
  proof (cases "match_here as s")
    case (Some r)
    from 3(3) have "ps = [] # r" unfolding match_Lazy_Some[OF Some] by simp
    with 3(1)[OF Some] show ?thesis by simp
  next
    case None
    show ?thesis
    proof (cases s)
      case Nil
      with None 3(3) show ?thesis by simp
    next
      case (Cons c cs)
      from 3(3) have m: "(if c = newline then None
          else map_option (push c) (match_here (Lazy # as) cs)) = Some ps"
        unfolding Cons match_Lazy_None_Cons[OF None[unfolded Cons]] .
      then have cn: "c \<noteq> newline" by (auto split: if_splits)
      with m obtain q where q: "match_here (Lazy # as) cs = Some q" "ps = push c q"
        by auto
      from 3(2)[OF None Cons cn q(1)] have l: "length q = length (Lazy # as)" .
      then have "q \<noteq> []" by auto
      with l q(2) show ?thesis by (simp add: push_length)
    qed
  qed
next
  case (4 rs as s)
  show ?case
  proof (cases s)
    case Nil
    with 4(3) show ?thesis by simp
  next
    case (Cons c cs)
    from 4(3) have m: "(if in_class rs c
      then (case match_here (Plus rs # as) cs of
              Some ps \<Rightarrow> Some (push c ps)
            | None \<Rightarrow> map_option (Cons [c]) (match_here as cs))
      else None) = Some ps"
      unfolding Cons match_Plus_Cons .
    then have ic: "in_class rs c" by (auto split: if_splits)
    show ?thesis
    proof (cases "match_here (Plus rs # as) cs")
      case (Some q)
      from 4(1)[OF Cons ic Some] have l: "length q = length (Plus rs # as)" .
      then have "q \<noteq> []" by auto
      moreover from m ic Some have "ps = push c q" by simp
      ultimately show ?thesis using l by (simp add: push_length)
    next
      case None
      with m ic obtain r where r: "match_here as cs = Some r" "ps = [c] # r" by auto
      from 4(2)[OF Cons ic None r(1)] r(2) show ?thesis by simp
    qed
  qed
qed

lemma match_here_prefix: "match_here as s = Some ps \<Longrightarrow> prefix (concat ps) s"
proof (induction as s arbitrary: ps rule: match_here.induct)
  case (1 s)
  then show ?case by simp
next
  case (2 l as s)
  from 2(2) obtain r where r: "prefix l s" "match_here as (drop (length l) s) = Some r"
    "ps = l # r"
    unfolding match_Lit_iff by blast
  from 2(1)[OF r(1,2)] have "prefix (concat r) (drop (length l) s)" .
  with r(1,3) show ?case by (auto simp: prefix_def)
next
  case (3 as s)
  show ?case
  proof (cases "match_here as s")
    case (Some r)
    from 3(3) have "ps = [] # r" unfolding match_Lazy_Some[OF Some] by simp
    with 3(1)[OF Some] show ?thesis by simp
  next
    case None
    show ?thesis
    proof (cases s)
      case Nil
      with None 3(3) show ?thesis by simp
    next
      case (Cons c cs)
      from 3(3) have m: "(if c = newline then None
          else map_option (push c) (match_here (Lazy # as) cs)) = Some ps"
        unfolding Cons match_Lazy_None_Cons[OF None[unfolded Cons]] .
      then have cn: "c \<noteq> newline" by (auto split: if_splits)
      with m obtain q where q: "match_here (Lazy # as) cs = Some q" "ps = push c q"
        by auto
      from match_here_length[OF q(1)] have "q \<noteq> []" by auto
      with 3(2)[OF None Cons cn q(1)] q(2) Cons show ?thesis
        by (simp add: push_concat)
    qed
  qed
next
  case (4 rs as s)
  show ?case
  proof (cases s)
    case Nil
    with 4(3) show ?thesis by simp
  next
    case (Cons c cs)
    from 4(3) have m: "(if in_class rs c
      then (case match_here (Plus rs # as) cs of
              Some ps \<Rightarrow> Some (push c ps)
            | None \<Rightarrow> map_option (Cons [c]) (match_here as cs))
      else None) = Some ps"
      unfolding Cons match_Plus_Cons .
    then have ic: "in_class rs c" by (auto split: if_splits)
    show ?thesis
    proof (cases "match_here (Plus rs # as) cs")
      case (Some q)
      from match_here_length[OF Some] have "q \<noteq> []" by auto
      moreover from m ic Some have "ps = push c q" by simp
      ultimately show ?thesis using 4(1)[OF Cons ic Some] Cons by (simp add: push_concat)
    next
      case None
      with m ic obtain r where r: "match_here as cs = Some r" "ps = [c] # r" by auto
      from 4(2)[OF Cons ic None r(1)] r(2) Cons show ?thesis by simp
    qed
  qed
qed

section \<open>The lazy wildcard and the search\<close>

lemma match_Lazy_sound:
  "match_here (Lazy # as) s = Some ps \<Longrightarrow>
     \<exists>d r. ps = d # r \<and> newline \<notin> set d \<and> prefix d s
       \<and> match_here as (drop (length d) s) = Some r
       \<and> (\<forall>k<length d. match_here as (drop k s) = None)"
proof (induction s arbitrary: ps)
  case Nil
  show ?case
  proof (cases "match_here as []")
    case None
    with Nil show ?thesis by simp
  next
    case (Some r)
    with Nil have "ps = [] # r" by simp
    with Some show ?thesis by simp
  qed
next
  case (Cons c cs)
  show ?case
  proof (cases "match_here as (c # cs)")
    case (Some r)
    with Cons.prems have "ps = [] # r" by simp
    with Some show ?thesis by simp
  next
    case None
    from Cons.prems have m: "(if c = newline then None
          else map_option (push c) (match_here (Lazy # as) cs)) = Some ps"
      unfolding match_Lazy_None_Cons[OF None] .
    then have cn: "c \<noteq> newline" by (auto split: if_splits)
    with m obtain q where q: "match_here (Lazy # as) cs = Some q" "ps = push c q"
      by auto
    from Cons.IH[OF q(1)] obtain d r where d: "q = d # r" "newline \<notin> set d" "prefix d cs"
      "match_here as (drop (length d) cs) = Some r"
      "\<forall>k<length d. match_here as (drop k cs) = None"
      by blast
    have "\<forall>k<length (c # d). match_here as (drop k (c # cs)) = None"
      using None d(5) by (auto simp: less_Suc_eq_0_disj)
    moreover have "ps = (c # d) # r" using q(2) d(1) by simp
    moreover have "newline \<notin> set (c # d)" using cn d(2) by auto
    moreover have "prefix (c # d) (c # cs)" using d(3) by simp
    moreover have "match_here as (drop (length (c # d)) (c # cs)) = Some r" using d(4) by simp
    ultimately show ?thesis by blast
  qed
qed

lemma match_Lazy_complete:
  "newline \<notin> set d \<Longrightarrow> match_here as t = Some r \<Longrightarrow>
   (\<forall>k<length d. match_here as (drop k (d @ t)) = None) \<Longrightarrow>
   match_here (Lazy # as) (d @ t) = Some (d # r)"
proof (induction d)
  case Nil
  then show ?case by simp
next
  case (Cons c d)
  have "0 < length (c # d)" by simp
  from Cons.prems(3)[rule_format, OF this]
  have none: "match_here as (c # d @ t) = None" by simp
  have cn: "c \<noteq> newline" using Cons.prems(1) by auto
  have "\<forall>k<length d. match_here as (drop k (d @ t)) = None"
  proof (intro allI impI)
    fix k assume "k < length d"
    then have "Suc k < length (c # d)" by simp
    from Cons.prems(3)[rule_format, OF this] show "match_here as (drop k (d @ t)) = None"
      by simp
  qed
  moreover have "newline \<notin> set d" using Cons.prems(1) by auto
  ultimately have ih: "match_here (Lazy # as) (d @ t) = Some (d # r)"
    using Cons.IH Cons.prems(2) by blast
  have "match_here (Lazy # as) (c # d @ t) = Some ((c # d) # r)"
    unfolding match_Lazy_None_Cons[OF none] using cn ih by simp
  then show ?case by simp
qed

lemma search_Some:
  "search pat s = Some ps \<Longrightarrow>
     \<exists>k\<le>length s. match_here pat (drop k s) = Some ps
        \<and> (\<forall>j<k. match_here pat (drop j s) = None)"
proof (induction s)
  case Nil
  then show ?case by simp
next
  case (Cons c cs)
  show ?case
  proof (cases "match_here pat (c # cs)")
    case (Some r)
    with Cons.prems have "r = ps" by simp
    with Some show ?thesis by (intro exI[of _ 0]) simp
  next
    case None
    with Cons.prems have "search pat cs = Some ps" by simp
    from Cons.IH[OF this] obtain k where k: "k \<le> length cs"
      "match_here pat (drop k cs) = Some ps" "\<forall>j<k. match_here pat (drop j cs) = None"
      by blast
    have "\<forall>j<Suc k. match_here pat (drop j (c # cs)) = None"
      using None k(3) by (auto simp: less_Suc_eq_0_disj)
    with k(1,2) show ?thesis by (intro exI[of _ "Suc k"]) simp
  qed
qed


lemma search_leftmost:
  "k \<le> length s \<Longrightarrow> match_here pat (drop k s) = Some ps \<Longrightarrow>
   (\<forall>j<k. match_here pat (drop j s) = None) \<Longrightarrow> search pat s = Some ps"
proof (induction s arbitrary: k)
  case Nil
  then show ?case by simp
next
  case (Cons c cs)
  show ?case
  proof (cases k)
    case 0
    with Cons.prems show ?thesis by simp
  next
    case (Suc k')
    have "0 < k" using Suc by simp
    from Cons.prems(3)[rule_format, OF this]
    have none: "match_here pat (c # cs) = None" by simp
    have a: "\<forall>j<k'. match_here pat (drop j cs) = None"
    proof (intro allI impI)
      fix j assume "j < k'"
      then have "Suc j < k" using Suc by simp
      from Cons.prems(3)[rule_format, OF this] show "match_here pat (drop j cs) = None" by simp
    qed
    have b: "k' \<le> length cs" using Cons.prems(1) Suc by simp
    have c: "match_here pat (drop k' cs) = Some ps" using Cons.prems(2) Suc by simp
    from Cons.IH[OF b c a] have "search pat cs = Some ps" .
    with none show ?thesis by simp
  qed
qed

lemma search_None_all:
  "(\<forall>k\<le>length s. match_here pat (drop k s) = None) \<Longrightarrow> search pat s = None"
proof (cases "search pat s")
  case None
  then show ?thesis by simp
next
  case (Some ps)
  assume a: "\<forall>k\<le>length s. match_here pat (drop k s) = None"
  from search_Some[OF Some] a show ?thesis by auto
qed




section \<open>Facts about the run\<close>

lemma prints_files: "files (foldl (\<lambda>w msg. print msg w) w ms) = files w"
  by (induction ms arbitrary: w) (simp_all add: print_def)

lemma prints_console: "console (foldl (\<lambda>w msg. print msg w) w ms) = console w @ ms"
  by (induction ms arbitrary: w) (simp_all add: print_def)

lemma step_None_files: "snd b = None \<Longrightarrow> files (step b k w) = files w"
  by (simp add: step_def prints_files)

lemma step_None_console: "snd b = None \<Longrightarrow> console (step b k w) = console w @ fst b"
  by (simp add: step_def prints_console)

lemma step_Some: "snd b = Some f \<Longrightarrow> step b k w = k f (foldl (\<lambda>w msg. print msg w) w (fst b))"
  by (simp add: step_def)

lemma step_files:
  "(\<And>f w'. snd b = Some f \<Longrightarrow> files w' = files w \<Longrightarrow> files (k f w') = F) \<Longrightarrow>
   (snd b = None \<Longrightarrow> F = files w) \<Longrightarrow> files (step b k w) = F"
  by (cases "snd b") (simp_all add: step_def prints_files)

lemma write_output_files:
  "files (write_output f1 f2 f3 cfg w) =
     (files w)(output_path \<mapsto>
        f1 @ [newline] @ f2 @ [newline] @ f3 @ [newline]
        @ ''const configString = '' @ [quote] @ cfg @ [quote] @ '';'' @ [newline]
        @ ''module.exports = { _0xb4a0, configString };'' @ [newline])"
  by (simp add: write_output_def open_w_def fwrite_def print_def)

lemma write_output_console:
  "console (write_output f1 f2 f3 cfg w) = console w @ [success_message]"
  by (simp add: write_output_def open_w_def fwrite_def print_def)

lemma run_fail_files:
  assumes "snd (func_8b05 c) = None \<or> snd (func_b4a0 c) = None
           \<or> snd (shuffle_iife c) = None \<or> snd (config_str c) = None"
  shows "files (extract_from c w) = files w"
proof (cases "snd (func_8b05 c)")
  case None
  then show ?thesis by (simp add: extract_from_def step_None_files)
next
  case f1: (Some f1)
  show ?thesis
  proof (cases "snd (func_b4a0 c)")
    case None
    then show ?thesis
      by (simp add: extract_from_def step_Some[OF f1] step_None_files prints_files)
  next
    case f2: (Some f2)
    show ?thesis
    proof (cases "snd (shuffle_iife c)")
      case None
      then show ?thesis
        by (simp add: extract_from_def step_Some[OF f1] step_Some[OF f2]
            step_None_files prints_files)
    next
      case f3: (Some f3)
      with f1 f2 assms have "snd (config_str c) = None" by simp
      then show ?thesis
        by (simp add: extract_from_def step_Some[OF f1] step_Some[OF f2] step_Some[OF f3]
            step_None_files prints_files)
    qed
  qed
qed

lemma run_ok:
  assumes "snd (func_8b05 c) = Some f1" "snd (func_b4a0 c) = Some f2"
    "snd (shuffle_iife c) = Some f3" "snd (config_str c) = Some cfg"
  shows "files (extract_from c w) =
     (files w)(output_path \<mapsto>
        f1 @ [newline] @ f2 @ [newline] @ f3 @ [newline]
        @ ''const configString = '' @ [quote] @ cfg @ [quote] @ '';'' @ [newline]
        @ ''module.exports = { _0xb4a0, configString };'' @ [newline])"
    and "console (extract_from c w) =
      console w @ fst (func_8b05 c) @ fst (func_b4a0 c) @ fst (shuffle_iife c)
      @ fst (config_str c) @ [success_message]"
  by (simp_all add: extract_from_def step_Some[OF assms(1)] step_Some[OF assms(2)]
      step_Some[OF assms(3)] step_Some[OF assms(4)] write_output_files write_output_console
      prints_files prints_console)

lemma run_fail_console:
  "snd (func_8b05 c) = None \<Longrightarrow> console (extract_from c w) = console w @ fst (func_8b05 c)"
  "snd (func_8b05 c) = Some f1 \<Longrightarrow> snd (func_b4a0 c) = None \<Longrightarrow>
     console (extract_from c w) = console w @ fst (func_8b05 c) @ fst (func_b4a0 c)"
  "snd (func_8b05 c) = Some f1 \<Longrightarrow> snd (func_b4a0 c) = Some f2 \<Longrightarrow>
   snd (shuffle_iife c) = None \<Longrightarrow>
     console (extract_from c w) =
       console w @ fst (func_8b05 c) @ fst (func_b4a0 c) @ fst (shuffle_iife c)"
  "snd (func_8b05 c) = Some f1 \<Longrightarrow> snd (func_b4a0 c) = Some f2 \<Longrightarrow>
   snd (shuffle_iife c) = Some f3 \<Longrightarrow> snd (config_str c) = None \<Longrightarrow>
     console (extract_from c w) =
       console w @ fst (func_8b05 c) @ fst (func_b4a0 c) @ fst (shuffle_iife c)
       @ fst (config_str c)"
  by (simp_all add: extract_from_def step_Some step_None_console prints_console)

lemma func_8b05_cases:
  "func_8b05 c = ([''Could not find _0x8b05 function''], None) \<or> (\<exists>f. func_8b05 c = ([], Some f))"
  by (simp add: func_8b05_def split: option.splits)

lemma func_b4a0_cases:
  "func_b4a0 c = ([''Could not find end of _0xb4a0''], None)
   \<or> func_b4a0 c = ([''Could not find _0xb4a0 function''], None)
   \<or> (\<exists>f. func_b4a0 c = ([], Some f))"
  by (simp add: func_b4a0_def Let_def split: option.splits)

lemma shuffle_iife_cases:
  "shuffle_iife c = ([''Could not find shuffle IIFE''], None)
   \<or> shuffle_iife c = ([''Could not find shuffle IIFE'', ''Could not find end of shuffle IIFE''], None)
   \<or> (\<exists>f. shuffle_iife c = ([''Could not find shuffle IIFE''], Some f))
   \<or> (\<exists>f. shuffle_iife c = ([], Some f))"
  by (simp add: shuffle_iife_def split: option.splits)

lemma config_str_cases:
  "config_str c = ([''Could not find config string''], None) \<or> (\<exists>p. config_str c = ([], Some p))"
  by (simp add: config_str_def split: option.splits)

lemma paths_distinct: "html_path \<noteq> output_path"
  by (simp add: html_path_def output_path_def)

section \<open>All-or-nothing output\<close>

text \<open>
  C1. Whatever the input document, if any one of the four extractions (lookup-table
  function, decoder function, shuffle routine, configuration string) fails, the run
  returns with every file as it was: the output file is neither created nor modified.
  The files change only when all four extractions succeed.
\<close>

theorem all_or_nothing:
  assumes "files w html_path = Some content"
  shows "\<exists>w'. extract_decoder w = Inr w'
    \<and> (snd (func_8b05 content) = None \<or> snd (func_b4a0 content) = None
        \<or> snd (shuffle_iife content) = None \<or> snd (config_str content) = None
        \<longrightarrow> files w' = files w)
    \<and> (files w' \<noteq> files w
        \<longrightarrow> snd (func_8b05 content) \<noteq> None \<and> snd (func_b4a0 content) \<noteq> None
            \<and> snd (shuffle_iife content) \<noteq> None \<and> snd (config_str content) \<noteq> None)"
proof (rule exI[of _ "extract_from content w"], intro conjI)
  show "extract_decoder w = Inr (extract_from content w)"
    using assms by (simp add: extract_decoder_def)
next
  show "snd (func_8b05 content) = None \<or> snd (func_b4a0 content) = None
        \<or> snd (shuffle_iife content) = None \<or> snd (config_str content) = None
        \<longrightarrow> files (extract_from content w) = files w"
    by (rule impI) (rule run_fail_files)
next
  show "files (extract_from content w) \<noteq> files w
        \<longrightarrow> snd (func_8b05 content) \<noteq> None \<and> snd (func_b4a0 content) \<noteq> None
            \<and> snd (shuffle_iife content) \<noteq> None \<and> snd (config_str content) \<noteq> None"
  proof (rule impI)
    assume ne: "files (extract_from content w) \<noteq> files w"
    have "\<not> (snd (func_8b05 content) = None \<or> snd (func_b4a0 content) = None
        \<or> snd (shuffle_iife content) = None \<or> snd (config_str content) = None)"
    proof
      assume "snd (func_8b05 content) = None \<or> snd (func_b4a0 content) = None
        \<or> snd (shuffle_iife content) = None \<or> snd (config_str content) = None"
      from run_fail_files[OF this] ne show False by simp
    qed
    then show "snd (func_8b05 content) \<noteq> None \<and> snd (func_b4a0 content) \<noteq> None
            \<and> snd (shuffle_iife content) \<noteq> None \<and> snd (config_str content) \<noteq> None"
      by simp
  qed
qed

theorem all_or_nothing_witness:
  "files (world_of doc_no_config) html_path = Some doc_no_config
   \<and> snd (config_str doc_no_config) = None
   \<and> (\<exists>w'. extract_decoder (world_of doc_no_config) = Inr w'
          \<and> files w' = files (world_of doc_no_config)
          \<and> files w' output_path = Some ''old'')"
proof -
  have h: "files (world_of doc_no_config) html_path = Some doc_no_config"
    by (simp add: world_of_def paths_distinct)
  have f: "snd (config_str doc_no_config) = None"
    by code_simp
  have o: "files (world_of doc_no_config) output_path = Some ''old''"
    by (simp add: world_of_def)
  from all_or_nothing[OF h] obtain w' where
    r: "extract_decoder (world_of doc_no_config) = Inr w'" and
    i: "snd (func_8b05 doc_no_config) = None \<or> snd (func_b4a0 doc_no_config) = None
        \<or> snd (shuffle_iife doc_no_config) = None \<or> snd (config_str doc_no_config) = None
        \<longrightarrow> files w' = files (world_of doc_no_config)"
    by (elim exE conjE)
  have e: "files w' = files (world_of doc_no_config)"
    by (rule i[rule_format]) (intro disjI2, rule f)
  have e2: "files w' output_path = Some ''old''"
    unfolding e by (rule o)
  show ?thesis
    by (intro conjI exI[of _ w']) (rule h f r e e2)+
qed

section \<open>The content of the output file\<close>

text \<open>
  C2. When all four extractions succeed, the output file holds exactly the lookup-table
  fragment, a line feed, the decoder fragment, a line feed, the shuffle fragment, a line
  feed, the line \<^verbatim>\<open>const configString = '<payload>';\<close> and the line
  \<^verbatim>\<open>module.exports = { _0xb4a0, configString };\<close>, each ended by a line feed, in
  that order and nothing else; no other file changes.
\<close>

theorem output_content:
  assumes "files w html_path = Some content"
    and "snd (func_8b05 content) = Some f1"
    and "snd (func_b4a0 content) = Some f2"
    and "snd (shuffle_iife content) = Some f3"
    and "snd (config_str content) = Some payload"
  shows "\<exists>w'. extract_decoder w = Inr w'
    \<and> files w' = (files w)(output_path \<mapsto>
        f1 @ [newline] @ f2 @ [newline] @ f3 @ [newline]
        @ ''const configString = '' @ [quote] @ payload @ [quote] @ '';'' @ [newline]
        @ ''module.exports = { _0xb4a0, configString };'' @ [newline])"
proof -
  have "extract_decoder w = Inr (extract_from content w)"
    using assms(1) by (simp add: extract_decoder_def)
  with run_ok(1)[OF assms(2-5)] show ?thesis by simp
qed

theorem output_content_witness:
  "files (world_of doc_ok) html_path = Some doc_ok
   \<and> snd (func_8b05 doc_ok) = Some sample_table
   \<and> snd (func_b4a0 doc_ok) = Some sample_decoder
   \<and> snd (shuffle_iife doc_ok) = Some sample_shuffle
   \<and> snd (config_str doc_ok) = Some ''abc123''
   \<and> (\<exists>w'. extract_decoder (world_of doc_ok) = Inr w'
        \<and> files w' output_path = Some
            (sample_table @ [newline] @ sample_decoder @ [newline] @ sample_shuffle @ [newline]
             @ ''const configString = '' @ [quote] @ ''abc123'' @ [quote] @ '';'' @ [newline]
             @ ''module.exports = { _0xb4a0, configString };'' @ [newline]))"
proof -
  have h: "files (world_of doc_ok) html_path = Some doc_ok"
    by (simp add: world_of_def paths_distinct)
  have f1: "snd (func_8b05 doc_ok) = Some sample_table" by code_simp
  have f2: "snd (func_b4a0 doc_ok) = Some sample_decoder" by code_simp
  have f3: "snd (shuffle_iife doc_ok) = Some sample_shuffle" by code_simp
  have f4: "snd (config_str doc_ok) = Some ''abc123''" by code_simp
  from output_content[OF h f1 f2 f3 f4] h f1 f2 f3 f4 show ?thesis by auto
qed

section \<open>Facts about the decoder block and the positional slices\<close>

lemma search_Lit_occurs:
  assumes "search (Lit l # as) c = Some ps"
  shows "\<exists>k\<le>length c. prefix l (drop k c)"
proof -
  from search_Some[OF assms] obtain k where k: "k \<le> length c"
    "match_here (Lit l # as) (drop k c) = Some ps"
    by blast
  from k(2) have "prefix l (drop k c)" unfolding match_Lit_iff by blast
  with k(1) show ?thesis by blast
qed


lemma b4a0_start_absent:
  assumes "find_str c b4a0_start 0 = None"
  shows "search pat_b4a0 c = None" and "search pat_b4a0_alt c = None"
proof -
  have no: "\<not> prefix b4a0_start (drop k c)" for k
    using assms unfolding find_str_0_None_iff by blast
  have lit: "prefix b4a0_start ''function _0xb4a0(''"
    by (simp add: b4a0_start_def)
  have gen: "search (Lit ''function _0xb4a0('' # as) c = None" for as
  proof (cases "search (Lit ''function _0xb4a0('' # as) c")
    case None
    then show ?thesis .
  next
    case (Some ps)
    from search_Lit_occurs[OF Some] obtain k where "prefix ''function _0xb4a0('' (drop k c)"
      by blast
    with lit have "prefix b4a0_start (drop k c)" by (rule prefix_order.trans)
    with no show ?thesis by blast
  qed
  show "search pat_b4a0 c = None"
    unfolding pat_b4a0_def b4a0_open_def append_Cons append_Nil by (rule gen)
  show "search pat_b4a0_alt c = None"
    unfolding pat_b4a0_alt_def b4a0_open_def append_Cons append_Nil by (rule gen)
qed

lemma func_b4a0_primary:
  "search pat_b4a0 c = Some m \<Longrightarrow> func_b4a0 c = ([], Some (group0 m))"
  by (simp add: func_b4a0_def)

lemma func_b4a0_alt:
  "search pat_b4a0 c = None \<Longrightarrow> search pat_b4a0_alt c = Some m \<Longrightarrow>
     func_b4a0 c = ([], Some (group0 m))"
  by (simp add: func_b4a0_def)

lemma func_b4a0_positional:
  "search pat_b4a0 c = None \<Longrightarrow> search pat_b4a0_alt c = None \<Longrightarrow>
   find_str c b4a0_start 0 = Some i \<Longrightarrow> find_str c shuffle_start i = Some j \<Longrightarrow>
     func_b4a0 c = ([], Some (slice c i j))"
  by (simp add: func_b4a0_def)

lemma func_b4a0_no_end:
  "search pat_b4a0 c = None \<Longrightarrow> search pat_b4a0_alt c = None \<Longrightarrow>
   find_str c b4a0_start 0 = Some i \<Longrightarrow> find_str c shuffle_start i = None \<Longrightarrow>
     func_b4a0 c = ([''Could not find end of _0xb4a0''], None)"
  by (simp add: func_b4a0_def)

lemma func_b4a0_no_start:
  "find_str c b4a0_start 0 = None \<Longrightarrow>
     func_b4a0 c = ([''Could not find _0xb4a0 function''], None)"
  by (simp add: func_b4a0_def b4a0_start_absent)

lemma decoder_fail_run:
  assumes "files w html_path = Some content" and "snd (func_b4a0 content) = None"
  shows "\<exists>w'. extract_decoder w = Inr w' \<and> files w' = files w"
proof (rule exI[of _ "extract_from content w"], rule conjI)
  show "extract_decoder w = Inr (extract_from content w)"
    using assms(1) by (simp add: extract_decoder_def)
  show "files (extract_from content w) = files w"
    by (rule run_fail_files) (intro disjI2 disjI1, rule assms(2))
qed

lemma slice_before_marker:
  assumes "find_str c m i = Some j" and "m \<noteq> []"
  shows "c = take i c @ slice c i j @ drop j c"
    and "prefix m (drop j c)"
    and "\<not> sublist m (slice c i j)"
proof -
  from find_str_Some[OF assms(1)]
  have ij: "i \<le> j" and jl: "j \<le> length c" and pm: "prefix m (drop j c)"
    and left: "\<And>k. i \<le> k \<Longrightarrow> k < j \<Longrightarrow> \<not> prefix m (drop k c)"
    by blast+
  show "prefix m (drop j c)" by (rule pm)
  have dj: "drop (j - i) (drop i c) = drop j c" using ij by simp
  have "take i c @ slice c i j @ drop j c
        = take i c @ (take (j - i) (drop i c) @ drop (j - i) (drop i c))"
    unfolding slice_def dj ..
  also have "\<dots> = c" by (simp only: append_take_drop_id)
  finally show dec: "c = take i c @ slice c i j @ drop j c" by simp
  have len: "length (slice c i j) = j - i"
    using ij jl by (simp add: slice_def)
  show "\<not> sublist m (slice c i j)"
  proof
    assume "sublist m (slice c i j)"
    then obtain ps ss where sl: "slice c i j = ps @ m @ ss"
      unfolding sublist_def by blast
    have lp: "length ps + length m \<le> j - i" using len sl by simp
    have lm: "Suc 0 \<le> length m" using assms(2) by (cases m) simp_all
    have lt: "i + length ps < j" using lp lm by arith
    have li: "length (take i c) = i" using ij jl by simp
    have "c = (take i c @ ps) @ m @ ss @ drop j c"
      using dec sl by simp
    then have "drop (i + length ps) c = drop (i + length ps) ((take i c @ ps) @ m @ ss @ drop j c)"
      by simp
    also have "\<dots> = m @ ss @ drop j c"
      using li by (simp del: append_assoc)
    finally have "prefix m (drop (i + length ps) c)" by simp
    with left[of "i + length ps"] lt show False by simp
  qed
qed

section \<open>Failure of the decoder extraction\<close>

text \<open>
  C5. If the start token \<^verbatim>\<open>function _0xb4a0\<close> is absent from the document, the
  decoder block reports the missing function and the run leaves every file as it was.
  If the start token is present but neither end pattern matches and no
  \<^verbatim>\<open>(function(_0x9dcbec\<close> marker follows the start position, the block reports the
  missing end and the run again leaves every file as it was.
\<close>

theorem decoder_failure:
  assumes "files w html_path = Some content"
  shows "(find_str content b4a0_start 0 = None \<longrightarrow>
            func_b4a0 content = ([''Could not find _0xb4a0 function''], None)
            \<and> (\<exists>w'. extract_decoder w = Inr w' \<and> files w' = files w))
       \<and> (\<forall>i. find_str content b4a0_start 0 = Some i \<and> search pat_b4a0 content = None
              \<and> search pat_b4a0_alt content = None
              \<and> find_str content shuffle_start i = None \<longrightarrow>
            func_b4a0 content = ([''Could not find end of _0xb4a0''], None)
            \<and> (\<exists>w'. extract_decoder w = Inr w' \<and> files w' = files w))"
proof (intro conjI allI impI)
  assume a: "find_str content b4a0_start 0 = None"
  show b: "func_b4a0 content = ([''Could not find _0xb4a0 function''], None)"
    by (rule func_b4a0_no_start[OF a])
  show "\<exists>w'. extract_decoder w = Inr w' \<and> files w' = files w"
    by (rule decoder_fail_run[OF assms]) (simp add: b)
next
  fix i
  assume a: "find_str content b4a0_start 0 = Some i \<and> search pat_b4a0 content = None
              \<and> search pat_b4a0_alt content = None
              \<and> find_str content shuffle_start i = None"
  show b: "func_b4a0 content = ([''Could not find end of _0xb4a0''], None)"
    by (rule func_b4a0_no_end[OF a[THEN conjunct2, THEN conjunct1]
          a[THEN conjunct2, THEN conjunct2, THEN conjunct1] a[THEN conjunct1]
          a[THEN conjunct2, THEN conjunct2, THEN conjunct2]])
  show "\<exists>w'. extract_decoder w = Inr w' \<and> files w' = files w"
    by (rule decoder_fail_run[OF assms]) (simp add: b)
qed

theorem decoder_failure_witness:
  "files (world_of doc_no_decoder) html_path = Some doc_no_decoder
   \<and> find_str doc_no_decoder b4a0_start 0 = None
   \<and> (func_b4a0 doc_no_decoder = ([''Could not find _0xb4a0 function''], None)
      \<and> (\<exists>w'. extract_decoder (world_of doc_no_decoder) = Inr w'
            \<and> files w' = files (world_of doc_no_decoder)))
   \<and> files (world_of doc_decoder_open) html_path = Some doc_decoder_open
   \<and> (find_str doc_decoder_open b4a0_start 0 = Some 52
      \<and> search pat_b4a0 doc_decoder_open = None
      \<and> search pat_b4a0_alt doc_decoder_open = None
      \<and> find_str doc_decoder_open shuffle_start 52 = None)
   \<and> (func_b4a0 doc_decoder_open = ([''Could not find end of _0xb4a0''], None)
      \<and> (\<exists>w'. extract_decoder (world_of doc_decoder_open) = Inr w'
            \<and> files w' = files (world_of doc_decoder_open)))"
proof -
  have h1: "files (world_of doc_no_decoder) html_path = Some doc_no_decoder"
    by (simp add: world_of_def paths_distinct)
  have a1: "find_str doc_no_decoder b4a0_start 0 = None"
    by code_simp
  note t1 = decoder_failure[OF h1, THEN conjunct1, rule_format, OF a1]
  have h2: "files (world_of doc_decoder_open) html_path = Some doc_decoder_open"
    by (simp add: world_of_def paths_distinct)
  have a2: "find_str doc_decoder_open b4a0_start 0 = Some 52
      \<and> search pat_b4a0 doc_decoder_open = None
      \<and> search pat_b4a0_alt doc_decoder_open = None
      \<and> find_str doc_decoder_open shuffle_start 52 = None"
    by code_simp
  note t2 = decoder_failure[OF h2, THEN conjunct2, rule_format, OF a2]
  show ?thesis
    by (rule conjI[OF h1 conjI[OF a1 conjI[OF t1 conjI[OF h2 conjI[OF a2 t2]]]]])
qed

section \<open>Order of the decoder strategies\<close>










lemma shuffle_iife_positional:
  "search pat_shuffle c = None \<Longrightarrow> find_str c shuffle_start 0 = Some i \<Longrightarrow>
   find_str c shuffle_next i = Some j \<Longrightarrow>
     shuffle_iife c = ([''Could not find shuffle IIFE''], Some (slice c i j))"
  by (simp add: shuffle_iife_def)

lemma shuffle_start_nonempty: "shuffle_start \<noteq> []"
  by (simp add: shuffle_start_def)

lemma shuffle_next_nonempty: "shuffle_next \<noteq> []"
  by (simp add: shuffle_next_def)

section \<open>The positional fallbacks exclude their marker\<close>

text \<open>
  C7. In both positional fallbacks (the decoder's scan for \<^verbatim>\<open>(function(_0x9dcbec\<close>
  and the shuffle routine's scan for \<^verbatim>\<open>,!(function\<close>) the fragment is the text from
  the position of the start token up to, and not including, the marker found: the
  document is the text before the start token, the fragment, and the rest beginning with
  the marker, and the marker does not occur inside the fragment.
\<close>

theorem positional_fallback_excludes_marker:
  "(\<forall>i j. search pat_b4a0 c = None \<and> search pat_b4a0_alt c = None
        \<and> find_str c b4a0_start 0 = Some i \<and> find_str c shuffle_start i = Some j \<longrightarrow>
        snd (func_b4a0 c) = Some (slice c i j)
        \<and> c = take i c @ slice c i j @ drop j c
        \<and> prefix b4a0_start (drop i c)
        \<and> prefix shuffle_start (drop j c)
        \<and> \<not> sublist shuffle_start (slice c i j))
   \<and> (\<forall>i j. search pat_shuffle c = None
        \<and> find_str c shuffle_start 0 = Some i \<and> find_str c shuffle_next i = Some j \<longrightarrow>
        snd (shuffle_iife c) = Some (slice c i j)
        \<and> c = take i c @ slice c i j @ drop j c
        \<and> prefix shuffle_start (drop i c)
        \<and> prefix shuffle_next (drop j c)
        \<and> \<not> sublist shuffle_next (slice c i j))"
proof (intro conjI allI impI)
  fix i j
  assume a: "search pat_b4a0 c = None \<and> search pat_b4a0_alt c = None
        \<and> find_str c b4a0_start 0 = Some i \<and> find_str c shuffle_start i = Some j"
  note s = a[THEN conjunct2, THEN conjunct2, THEN conjunct1]
  note e = a[THEN conjunct2, THEN conjunct2, THEN conjunct2]
  have "func_b4a0 c = ([], Some (slice c i j))"
    by (rule func_b4a0_positional[OF a[THEN conjunct1] a[THEN conjunct2, THEN conjunct1] s e])
  then show "snd (func_b4a0 c) = Some (slice c i j)" by simp
  show "c = take i c @ slice c i j @ drop j c"
    by (rule slice_before_marker(1)[OF e shuffle_start_nonempty])
  show "prefix b4a0_start (drop i c)"
    using find_str_Some[OF s] by blast
  show "prefix shuffle_start (drop j c)"
    by (rule slice_before_marker(2)[OF e shuffle_start_nonempty])
  show "\<not> sublist shuffle_start (slice c i j)"
    by (rule slice_before_marker(3)[OF e shuffle_start_nonempty])
next
  fix i j
  assume a: "search pat_shuffle c = None
        \<and> find_str c shuffle_start 0 = Some i \<and> find_str c shuffle_next i = Some j"
  note s = a[THEN conjunct2, THEN conjunct1]
  note e = a[THEN conjunct2, THEN conjunct2]
  have "shuffle_iife c = ([''Could not find shuffle IIFE''], Some (slice c i j))"
    by (rule shuffle_iife_positional[OF a[THEN conjunct1] s e])
  then show "snd (shuffle_iife c) = Some (slice c i j)" by simp
  show "c = take i c @ slice c i j @ drop j c"
    by (rule slice_before_marker(1)[OF e shuffle_next_nonempty])
  show "prefix shuffle_start (drop i c)"
    using find_str_Some[OF s] by blast
  show "prefix shuffle_next (drop j c)"
    by (rule slice_before_marker(2)[OF e shuffle_next_nonempty])
  show "\<not> sublist shuffle_next (slice c i j)"
    by (rule slice_before_marker(3)[OF e shuffle_next_nonempty])
qed

theorem positional_fallback_excludes_marker_witness:
  "(search pat_b4a0 doc_positional = None \<and> search pat_b4a0_alt doc_positional = None
      \<and> find_str doc_positional b4a0_start 0 = Some 52
      \<and> find_str doc_positional shuffle_start 52 = Some 92)
   \<and> (snd (func_b4a0 doc_positional) = Some (slice doc_positional 52 92)
      \<and> doc_positional
          = take 52 doc_positional @ slice doc_positional 52 92 @ drop 92 doc_positional
      \<and> prefix b4a0_start (drop 52 doc_positional)
      \<and> prefix shuffle_start (drop 92 doc_positional)
      \<and> \<not> sublist shuffle_start (slice doc_positional 52 92))
   \<and> slice doc_positional 52 92 = loose_decoder @ ''var x=1;''
   \<and> (search pat_shuffle doc_shuffle_fallback = None
      \<and> find_str doc_shuffle_fallback shuffle_start 0 = Some 95
      \<and> find_str doc_shuffle_fallback shuffle_next 95 = Some 139)
   \<and> (snd (shuffle_iife doc_shuffle_fallback) = Some (slice doc_shuffle_fallback 95 139)
      \<and> doc_shuffle_fallback
          = take 95 doc_shuffle_fallback @ slice doc_shuffle_fallback 95 139
            @ drop 139 doc_shuffle_fallback
      \<and> prefix shuffle_start (drop 95 doc_shuffle_fallback)
      \<and> prefix shuffle_next (drop 139 doc_shuffle_fallback)
      \<and> \<not> sublist shuffle_next (slice doc_shuffle_fallback 95 139))
   \<and> slice doc_shuffle_fallback 95 139 = loose_shuffle"
proof -
  have a1: "search pat_b4a0 doc_positional = None \<and> search pat_b4a0_alt doc_positional = None
      \<and> find_str doc_positional b4a0_start 0 = Some 52
      \<and> find_str doc_positional shuffle_start 52 = Some 92"
    by code_simp
  note t1 = positional_fallback_excludes_marker[of doc_positional, THEN conjunct1,
      rule_format, OF a1]
  have e1: "slice doc_positional 52 92 = loose_decoder @ ''var x=1;''"
    by code_simp
  have a2: "search pat_shuffle doc_shuffle_fallback = None
      \<and> find_str doc_shuffle_fallback shuffle_start 0 = Some 95
      \<and> find_str doc_shuffle_fallback shuffle_next 95 = Some 139"
    by code_simp
  note t2 = positional_fallback_excludes_marker[of doc_shuffle_fallback, THEN conjunct2,
      rule_format, OF a2]
  have e2: "slice doc_shuffle_fallback 95 139 = loose_shuffle"
    by code_simp
  show ?thesis
    by (rule conjI[OF a1 conjI[OF t1 conjI[OF e1 conjI[OF a2 conjI[OF t2 e2]]]]])
qed

lemma only_occurrence:
  assumes "find_str s sub 0 = Some p" and "find_str s sub (Suc p) = None"
    and "Suc p \<le> length s" and "prefix sub (drop k s)"
  shows "k = p"
proof (rule ccontr)
  assume ne: "k \<noteq> p"
  show False
  proof (cases "k < p")
    case True
    from find_str_Some[OF assms(1)] True assms(4) show False by blast
  next
    case False
    with ne have "k = Suc p + (k - Suc p)" by simp
    with find_str_None[OF assms(2,3), of "k - Suc p"] assms(4) show False by simp
  qed
qed

lemma match_8b05_shape:
  assumes "match_here pat_8b05 s = Some ps"
  shows "\<exists>d. newline \<notin> set d \<and> prefix (table_start @ d @ table_end) s"
proof -
  from assms obtain r where r: "prefix table_start s"
    "match_here [Lazy, Lit table_end] (drop (length table_start) s) = Some r"
    unfolding pat_8b05_def match_Lit_iff by blast
  from match_Lazy_sound[OF r(2)] obtain d r' where d: "newline \<notin> set d"
    "prefix d (drop (length table_start) s)"
    "match_here [Lit table_end] (drop (length d) (drop (length table_start) s)) = Some r'"
    by blast
  from d(3) have e: "prefix table_end (drop (length d) (drop (length table_start) s))"
    unfolding match_Lit_iff by blast
  from r(1) obtain t where t: "s = table_start @ t" by (auto simp: prefix_def)
  from d(2) t obtain u where u: "t = d @ u" by (auto simp: prefix_def)
  from e t u have "prefix table_end u" by simp
  then obtain v where "u = table_end @ v" by (auto simp: prefix_def)
  with t u have "s = (table_start @ d @ table_end) @ v" by simp
  then have "prefix (table_start @ d @ table_end) s" by (metis prefixI)
  with d(1) show ?thesis by blast
qed

section \<open>The patterns do not span line breaks\<close>

text \<open>
  C10. The wildcard of the lookup-table pattern does not cross a line feed. If, in the
  document, every occurrence of the end token \<^verbatim>\<open>return _0x8b05();}\<close> after an
  occurrence of the start token \<^verbatim>\<open>function _0x8b05(){\<close> is separated from it by a
  line feed, the lookup-table extraction fails and the run aborts with its diagnostic,
  leaving every file as it was, although both tokens may occur in the document.
\<close>

theorem lookup_table_same_line:
  assumes "files w html_path = Some content"
    and "\<forall>i j. prefix table_start (drop i content) \<and> prefix table_end (drop j content)
              \<and> i + length table_start \<le> j
            \<longrightarrow> newline \<in> set (slice content (i + length table_start) j)"
  shows "func_8b05 content = ([''Could not find _0x8b05 function''], None)
    \<and> (\<exists>w'. extract_decoder w = Inr w' \<and> files w' = files w
          \<and> console w' = console w @ [''Could not find _0x8b05 function''])"
proof -
  have none: "search pat_8b05 content = None"
  proof (cases "search pat_8b05 content")
    case None
    then show ?thesis .
  next
    case (Some ps)
    from search_Some[OF Some] obtain k where k: "k \<le> length content"
      "match_here pat_8b05 (drop k content) = Some ps"
      by blast
    from match_8b05_shape[OF k(2)] obtain d where d: "newline \<notin> set d"
      "prefix (table_start @ d @ table_end) (drop k content)"
      by blast
    from d(2) obtain v where v: "drop k content = table_start @ d @ table_end @ v"
      by (auto simp: prefix_def)
    have p1: "prefix table_start (drop k content)" using v by simp
    have dk: "drop (k + length table_start) content = d @ table_end @ v"
      using v by (metis add.commute append_eq_conv_conj drop_drop)
    have dj: "drop (k + length table_start + length d) content = table_end @ v"
      using dk by (metis add.commute append_eq_conv_conj drop_drop)
    have p2: "prefix table_end (drop (k + length table_start + length d) content)"
      using dj by simp
    have sl: "slice content (k + length table_start) (k + length table_start + length d) = d"
      using dk by (simp add: slice_def)
    from assms(2)[rule_format, of k "k + length table_start + length d"] p1 p2
    have "newline \<in> set (slice content (k + length table_start)
                            (k + length table_start + length d))"
      by simp
    with sl d(1) show ?thesis by simp
  qed
  then have b: "func_8b05 content = ([''Could not find _0x8b05 function''], None)"
    by (simp add: func_8b05_def)
  have s: "snd (func_8b05 content) = None" by (simp add: b)
  have run: "extract_decoder w = Inr (extract_from content w)"
    using assms(1) by (simp add: extract_decoder_def)
  have f: "files (extract_from content w) = files w"
    by (rule run_fail_files) (rule disjI1, rule s)
  have c: "console (extract_from content w) = console w @ [''Could not find _0x8b05 function'']"
    using run_fail_console(1)[OF s, of w] by (simp add: b)
  have "\<exists>w'. extract_decoder w = Inr w' \<and> files w' = files w
          \<and> console w' = console w @ [''Could not find _0x8b05 function'']"
    by (rule exI[of _ "extract_from content w"]) (rule conjI[OF run conjI[OF f c]])
  with b show ?thesis by (rule conjI)
qed

theorem lookup_table_same_line_witness:
  "files (world_of doc_split_table) html_path = Some doc_split_table
   \<and> (find_str doc_split_table table_start 0 = Some 0
      \<and> find_str doc_split_table table_end 0 = Some 35)
   \<and> (find_str doc_split_table table_start (Suc 0) = None
      \<and> find_str doc_split_table table_end (Suc 35) = None
      \<and> Suc 0 \<le> length doc_split_table \<and> Suc 35 \<le> length doc_split_table)
   \<and> newline \<in> set (slice doc_split_table (0 + length table_start) 35)
   \<and> (func_8b05 doc_split_table = ([''Could not find _0x8b05 function''], None)
      \<and> (\<exists>w'. extract_decoder (world_of doc_split_table) = Inr w'
            \<and> files w' = files (world_of doc_split_table)
            \<and> console w' = console (world_of doc_split_table)
                             @ [''Could not find _0x8b05 function'']))"
proof -
  have h: "files (world_of doc_split_table) html_path = Some doc_split_table"
    by (simp add: world_of_def paths_distinct)
  have o: "find_str doc_split_table table_start 0 = Some 0
      \<and> find_str doc_split_table table_end 0 = Some 35"
    by code_simp
  have n: "find_str doc_split_table table_start (Suc 0) = None
      \<and> find_str doc_split_table table_end (Suc 35) = None
      \<and> Suc 0 \<le> length doc_split_table \<and> Suc 35 \<le> length doc_split_table"
    by code_simp
  have nl: "newline \<in> set (slice doc_split_table (0 + length table_start) 35)"
    by code_simp
  have a: "\<forall>i j. prefix table_start (drop i doc_split_table)
            \<and> prefix table_end (drop j doc_split_table)
            \<and> i + length table_start \<le> j
          \<longrightarrow> newline \<in> set (slice doc_split_table (i + length table_start) j)"
  proof (intro allI impI)
    fix i j
    assume p: "prefix table_start (drop i doc_split_table)
            \<and> prefix table_end (drop j doc_split_table)
            \<and> i + length table_start \<le> j"
    have i: "i = 0"
      by (rule only_occurrence[OF o[THEN conjunct1] n[THEN conjunct1]
            n[THEN conjunct2, THEN conjunct2, THEN conjunct1] p[THEN conjunct1]])
    have j: "j = 35"
      by (rule only_occurrence[OF o[THEN conjunct2] n[THEN conjunct2, THEN conjunct1]
            n[THEN conjunct2, THEN conjunct2, THEN conjunct2]
            p[THEN conjunct2, THEN conjunct1]])
    show "newline \<in> set (slice doc_split_table (i + length table_start) j)"
      unfolding i j by (rule nl)
  qed
  note t = lookup_table_same_line[OF h a]
  show ?thesis
    by (rule conjI[OF h conjI[OF o conjI[OF n conjI[OF nl t]]]])
qed

section \<open>Facts about the configuration pattern\<close>

lemma match_single_Lit:
  "match_here [Lit l] s = (if prefix l s then Some [l] else None)"
  by simp

lemma prefix_append_long:
  assumes "length a \<le> length x" and "prefix a (x @ y)"
  shows "prefix a x"
proof -
  from assms(2) have "prefix a x \<or> (\<exists>us. a = x @ us \<and> prefix us y)"
    by (simp add: prefix_append)
  then show ?thesis
  proof
    assume "prefix a x"
    then show ?thesis .
  next
    assume "\<exists>us. a = x @ us \<and> prefix us y"
    then obtain us where us: "a = x @ us" by blast
    with assms(1) have "us = []" by simp
    with us show ?thesis by simp
  qed
qed

lemma config_close_length: "length config_close = 2"
  by (simp add: config_close_def)

lemma close_inside_iff:
  assumes "k < length p"
  shows "prefix config_close (drop k (p @ config_close @ post))
         \<longleftrightarrow> prefix config_close (drop k (p @ config_close))"
proof -
  have d: "drop k (p @ config_close @ post) = drop k (p @ config_close) @ post"
    using assms by simp
  have l: "length config_close \<le> length (drop k (p @ config_close))"
    using assms by (simp add: config_close_length)
  show ?thesis
    unfolding d
  proof
    assume "prefix config_close (drop k (p @ config_close) @ post)"
    with l show "prefix config_close (drop k (p @ config_close))"
      by (rule prefix_append_long)
  next
    assume "prefix config_close (drop k (p @ config_close))"
    then show "prefix config_close (drop k (p @ config_close) @ post)"
      by (rule prefix_prefix)
  qed
qed

lemma match_config_sound:
  assumes "match_here pat_config s = Some ps"
  shows "\<exists>p post. ps = [config_open, p, config_close]
           \<and> s = config_open @ p @ config_close @ post
           \<and> newline \<notin> set p
           \<and> (\<forall>k<length p. \<not> prefix config_close (drop k (p @ config_close)))"
proof -
  from assms obtain r where r: "ps = config_open # r" "prefix config_open s"
    "match_here [Lazy, Lit config_close] (drop (length config_open) s) = Some r"
    unfolding pat_config_def match_Lit_iff by blast
  from r(2) obtain t where t: "s = config_open @ t" by (auto simp: prefix_def)
  from r(3) t have m: "match_here [Lazy, Lit config_close] t = Some r" by simp
  from match_Lazy_sound[OF m] obtain p r' where p: "r = p # r'" "newline \<notin> set p"
    "prefix p t" "match_here [Lit config_close] (drop (length p) t) = Some r'"
    "\<forall>k<length p. match_here [Lit config_close] (drop k t) = None"
    by blast
  from p(3) obtain u where u: "t = p @ u" by (auto simp: prefix_def)
  from p(4) u have e: "prefix config_close u" and r': "r' = [config_close]"
    by (auto simp: match_single_Lit split: if_splits)
  from e obtain post where post: "u = config_close @ post" by (auto simp: prefix_def)
  have min: "\<forall>k<length p. \<not> prefix config_close (drop k (p @ config_close))"
  proof (intro allI impI)
    fix k assume k: "k < length p"
    from p(5)[rule_format, OF k] have "\<not> prefix config_close (drop k t)"
      by (simp add: match_single_Lit split: if_splits)
    then have "\<not> prefix config_close (drop k (p @ config_close @ post))"
      using u post by simp
    then show "\<not> prefix config_close (drop k (p @ config_close))"
      unfolding close_inside_iff[OF k] .
  qed
  have "ps = [config_open, p, config_close]" using r(1) p(1) r' by simp
  moreover have "s = config_open @ p @ config_close @ post" using t u post by simp
  ultimately show ?thesis using p(2) min by blast
qed

lemma match_config_complete:
  assumes "newline \<notin> set p"
    and "\<forall>k<length p. \<not> prefix config_close (drop k (p @ config_close))"
  shows "match_here pat_config (config_open @ p @ config_close @ post)
         = Some [config_open, p, config_close]"
proof -
  have e: "match_here [Lit config_close] (config_close @ post) = Some [config_close]"
    by (simp add: match_single_Lit)
  have n: "\<forall>k<length p. match_here [Lit config_close] (drop k (p @ config_close @ post)) = None"
  proof (intro allI impI)
    fix k assume k: "k < length p"
    from assms(2)[rule_format, OF k]
    have "\<not> prefix config_close (drop k (p @ config_close @ post))"
      unfolding close_inside_iff[OF k] .
    then show "match_here [Lit config_close] (drop k (p @ config_close @ post)) = None"
      by (simp add: match_single_Lit)
  qed
  from match_Lazy_complete[OF assms(1) e n]
  have "match_here [Lazy, Lit config_close] (p @ config_close @ post)
        = Some [p, config_close]" .
  then show ?thesis
    unfolding pat_config_def match_Lit_iff by simp
qed

lemma no_config_before:
  assumes "find_str c config_open 0 = Some n"
  shows "\<forall>k<n. match_here pat_config (drop k c) = None"
proof (intro allI impI)
  fix k assume k: "k < n"
  from find_str_Some[OF assms] k have np: "\<not> prefix config_open (drop k c)" by blast
  show "match_here pat_config (drop k c) = None"
  proof (cases "match_here pat_config (drop k c)")
    case None
    then show ?thesis .
  next
    case (Some ps)
    then have "prefix config_open (drop k c)"
      unfolding pat_config_def match_Lit_iff by blast
    with np show ?thesis by blast
  qed
qed

lemma config_str_sound:
  assumes "snd (config_str c) = Some p"
  shows "\<exists>pre post. c = pre @ config_open @ p @ config_close @ post
           \<and> (\<forall>k<length pre. match_here pat_config (drop k c) = None)"
    and "newline \<notin> set p"
    and "\<forall>k<length p. \<not> prefix config_close (drop k (p @ config_close))"
proof -
  from assms obtain ps where ps: "search pat_config c = Some ps" "p = group1 ps"
    by (auto simp: config_str_def split: option.splits)
  from search_Some[OF ps(1)] obtain n where n: "n \<le> length c"
    "match_here pat_config (drop n c) = Some ps"
    "\<forall>j<n. match_here pat_config (drop j c) = None"
    by blast
  from match_config_sound[OF n(2)] obtain q post where q:
    "ps = [config_open, q, config_close]"
    "drop n c = config_open @ q @ config_close @ post"
    "newline \<notin> set q"
    "\<forall>k<length q. \<not> prefix config_close (drop k (q @ config_close))"
    by blast
  have pq: "p = q" using ps(2) q(1) by (simp add: group1_def)
  have "c = take n c @ drop n c" by simp
  then have c: "c = take n c @ config_open @ p @ config_close @ post"
    unfolding q(2) pq .
  have "length (take n c) = n" using n(1) by simp
  with n(3) have "\<forall>k<length (take n c). match_here pat_config (drop k c) = None" by simp
  with c show "\<exists>pre post. c = pre @ config_open @ p @ config_close @ post
           \<and> (\<forall>k<length pre. match_here pat_config (drop k c) = None)"
    by blast
  show "newline \<notin> set p" using q(3) pq by simp
  show "\<forall>k<length p. \<not> prefix config_close (drop k (p @ config_close))"
    using q(4) pq by simp
qed

lemma config_str_complete:
  assumes "c = pre @ config_open @ p @ config_close @ post"
    and "newline \<notin> set p"
    and "\<forall>k<length p. \<not> prefix config_close (drop k (p @ config_close))"
    and "\<forall>k<length pre. match_here pat_config (drop k c) = None"
  shows "config_str c = ([], Some p)"
proof -
  have d: "drop (length pre) c = config_open @ p @ config_close @ post"
    unfolding assms(1) by simp
  have m: "match_here pat_config (drop (length pre) c) = Some [config_open, p, config_close]"
    unfolding d by (rule match_config_complete[OF assms(2,3)])
  have l: "length pre \<le> length c" unfolding assms(1) by simp
  from search_leftmost[OF l m assms(4)]
  have "search pat_config c = Some [config_open, p, config_close]" .
  then show ?thesis by (simp add: config_str_def group1_def)
qed

lemma no_quote_no_close:
  assumes "quote \<notin> set p"
  shows "\<forall>k<length p. \<not> prefix config_close (drop k (p @ config_close))"
proof (intro allI impI notI)
  fix k assume k: "k < length p" and pre: "prefix config_close (drop k (p @ config_close))"
  from pre obtain v where v: "drop k (p @ config_close) = config_close @ v"
    by (auto simp: prefix_def)
  have "drop k (p @ config_close) = p ! k # drop (Suc k) (p @ config_close)"
    using k by (simp add: Cons_nth_drop_Suc[symmetric] nth_append)
  with v have "p ! k = quote" by (simp add: config_close_def)
  with k assms show False by (metis nth_mem)
qed

section \<open>The captured configuration payload\<close>

text \<open>
  C4. The payload captured is exactly the text between the single quotes of the first
  matching assignment \<^verbatim>\<open>window['ZpQw9XkLmN8c3vR3']='<payload>';\<close>: the document
  is some text, the opening of the assignment, the payload, the closing quote and
  semicolon, and the rest, with nothing added to or taken from the payload. Conversely
  a payload that has no line feed and is not cut short by an earlier quote-semicolon is
  captured as it stands. This includes the empty payload, for which the empty string is
  captured and the run, the other three fragments being found, writes the output file.
\<close>

theorem config_payload_exact:
  "(\<forall>p. snd (config_str c) = Some p \<longrightarrow>
      (\<exists>pre post. c = pre @ config_open @ p @ config_close @ post
          \<and> (\<forall>k<length pre. match_here pat_config (drop k c) = None))
      \<and> newline \<notin> set p
      \<and> (\<forall>k<length p. \<not> prefix config_close (drop k (p @ config_close))))
   \<and> (\<forall>pre p post. c = pre @ config_open @ p @ config_close @ post
        \<and> newline \<notin> set p
        \<and> (\<forall>k<length p. \<not> prefix config_close (drop k (p @ config_close)))
        \<and> (\<forall>k<length pre. match_here pat_config (drop k c) = None)
      \<longrightarrow> config_str c = ([], Some p))
   \<and> (\<forall>pre post w f1 f2 f3. c = pre @ config_open @ config_close @ post
        \<and> (\<forall>k<length pre. match_here pat_config (drop k c) = None)
        \<and> files w html_path = Some c
        \<and> snd (func_8b05 c) = Some f1 \<and> snd (func_b4a0 c) = Some f2
        \<and> snd (shuffle_iife c) = Some f3
      \<longrightarrow> config_str c = ([], Some [])
        \<and> (\<exists>w'. extract_decoder w = Inr w'
              \<and> files w' output_path = Some
                  (f1 @ [newline] @ f2 @ [newline] @ f3 @ [newline]
                   @ ''const configString = '' @ [quote] @ [] @ [quote] @ '';'' @ [newline]
                   @ ''module.exports = { _0xb4a0, configString };'' @ [newline])))"
proof (intro conjI)
  show "\<forall>p. snd (config_str c) = Some p \<longrightarrow>
      (\<exists>pre post. c = pre @ config_open @ p @ config_close @ post
          \<and> (\<forall>k<length pre. match_here pat_config (drop k c) = None))
      \<and> newline \<notin> set p
      \<and> (\<forall>k<length p. \<not> prefix config_close (drop k (p @ config_close)))"
  proof (intro allI impI)
    fix p
    assume a: "snd (config_str c) = Some p"
    show "(\<exists>pre post. c = pre @ config_open @ p @ config_close @ post
          \<and> (\<forall>k<length pre. match_here pat_config (drop k c) = None))
      \<and> newline \<notin> set p
      \<and> (\<forall>k<length p. \<not> prefix config_close (drop k (p @ config_close)))"
      by (rule conjI[OF config_str_sound(1)[OF a]
            conjI[OF config_str_sound(2)[OF a] config_str_sound(3)[OF a]]])
  qed
next
  show "\<forall>pre p post. c = pre @ config_open @ p @ config_close @ post
        \<and> newline \<notin> set p
        \<and> (\<forall>k<length p. \<not> prefix config_close (drop k (p @ config_close)))
        \<and> (\<forall>k<length pre. match_here pat_config (drop k c) = None)
      \<longrightarrow> config_str c = ([], Some p)"
  proof (intro allI impI)
    fix pre p post
    assume a: "c = pre @ config_open @ p @ config_close @ post
        \<and> newline \<notin> set p
        \<and> (\<forall>k<length p. \<not> prefix config_close (drop k (p @ config_close)))
        \<and> (\<forall>k<length pre. match_here pat_config (drop k c) = None)"
    show "config_str c = ([], Some p)"
      by (rule config_str_complete[OF a[THEN conjunct1] a[THEN conjunct2, THEN conjunct1]
            a[THEN conjunct2, THEN conjunct2, THEN conjunct1]
            a[THEN conjunct2, THEN conjunct2, THEN conjunct2]])
  qed
next
  show "\<forall>pre post w f1 f2 f3. c = pre @ config_open @ config_close @ post
        \<and> (\<forall>k<length pre. match_here pat_config (drop k c) = None)
        \<and> files w html_path = Some c
        \<and> snd (func_8b05 c) = Some f1 \<and> snd (func_b4a0 c) = Some f2
        \<and> snd (shuffle_iife c) = Some f3
      \<longrightarrow> config_str c = ([], Some [])
        \<and> (\<exists>w'. extract_decoder w = Inr w'
              \<and> files w' output_path = Some
                  (f1 @ [newline] @ f2 @ [newline] @ f3 @ [newline]
                   @ ''const configString = '' @ [quote] @ [] @ [quote] @ '';'' @ [newline]
                   @ ''module.exports = { _0xb4a0, configString };'' @ [newline]))"
  proof (intro allI impI)
    fix pre post :: string and w :: world and f1 f2 f3 :: string
    assume a: "c = pre @ config_open @ config_close @ post
        \<and> (\<forall>k<length pre. match_here pat_config (drop k c) = None)
        \<and> files w html_path = Some c
        \<and> snd (func_8b05 c) = Some f1 \<and> snd (func_b4a0 c) = Some f2
        \<and> snd (shuffle_iife c) = Some f3"
    have c: "c = pre @ config_open @ [] @ config_close @ post"
      using a[THEN conjunct1] by simp
    have cfg: "config_str c = ([], Some [])"
      by (rule config_str_complete[OF c _ _ a[THEN conjunct2, THEN conjunct1]]) simp_all
    have s4: "snd (config_str c) = Some []" by (simp add: cfg)
    note h = a[THEN conjunct2, THEN conjunct2, THEN conjunct1]
    note s1 = a[THEN conjunct2, THEN conjunct2, THEN conjunct2, THEN conjunct1]
    note s2 = a[THEN conjunct2, THEN conjunct2, THEN conjunct2, THEN conjunct2, THEN conjunct1]
    note s3 = a[THEN conjunct2, THEN conjunct2, THEN conjunct2, THEN conjunct2, THEN conjunct2]
    have run: "extract_decoder w = Inr (extract_from c w)"
      using h by (simp add: extract_decoder_def)
    have out: "files (extract_from c w) output_path = Some
                  (f1 @ [newline] @ f2 @ [newline] @ f3 @ [newline]
                   @ ''const configString = '' @ [quote] @ [] @ [quote] @ '';'' @ [newline]
                   @ ''module.exports = { _0xb4a0, configString };'' @ [newline])"
      unfolding run_ok(1)[OF s1 s2 s3 s4] by simp
    have ex: "\<exists>w'. extract_decoder w = Inr w'
              \<and> files w' output_path = Some
                  (f1 @ [newline] @ f2 @ [newline] @ f3 @ [newline]
                   @ ''const configString = '' @ [quote] @ [] @ [quote] @ '';'' @ [newline]
                   @ ''module.exports = { _0xb4a0, configString };'' @ [newline])"
      by (rule exI[of _ "extract_from c w"]) (rule conjI[OF run out])
    show "config_str c = ([], Some [])
        \<and> (\<exists>w'. extract_decoder w = Inr w'
              \<and> files w' output_path = Some
                  (f1 @ [newline] @ f2 @ [newline] @ f3 @ [newline]
                   @ ''const configString = '' @ [quote] @ [] @ [quote] @ '';'' @ [newline]
                   @ ''module.exports = { _0xb4a0, configString };'' @ [newline]))"
      by (rule conjI[OF cfg ex])
  qed
qed

theorem config_payload_exact_witness:
  "snd (config_str doc_ok) = Some ''abc123''
   \<and> (\<exists>pre post. doc_ok = pre @ config_open @ ''abc123'' @ config_close @ post
          \<and> (\<forall>k<length pre. match_here pat_config (drop k doc_ok) = None))
   \<and> newline \<notin> set ''abc123''
   \<and> \<not> prefix config_close (drop 5 (''abc123'' @ config_close))
   \<and> doc_ok = (''<script>'' @ sample_table @ sample_decoder @ sample_shuffle) @ config_open
                 @ ''abc123'' @ config_close @ ''</script>''
   \<and> quote \<notin> set ''abc123''
   \<and> find_str doc_ok config_open 0
        = Some (length (''<script>'' @ sample_table @ sample_decoder @ sample_shuffle))
   \<and> config_str doc_ok = ([], Some ''abc123'')
   \<and> doc_empty_payload = (sample_table @ sample_decoder @ sample_shuffle) @ config_open
                            @ config_close @ []
   \<and> find_str doc_empty_payload config_open 0
        = Some (length (sample_table @ sample_decoder @ sample_shuffle))
   \<and> files (world_of doc_empty_payload) html_path = Some doc_empty_payload
   \<and> snd (func_8b05 doc_empty_payload) = Some sample_table
   \<and> snd (func_b4a0 doc_empty_payload) = Some sample_decoder
   \<and> snd (shuffle_iife doc_empty_payload) = Some sample_shuffle
   \<and> (config_str doc_empty_payload = ([], Some [])
      \<and> (\<exists>w'. extract_decoder (world_of doc_empty_payload) = Inr w'
              \<and> files w' output_path = Some
                  (sample_table @ [newline] @ sample_decoder @ [newline] @ sample_shuffle
                   @ [newline]
                   @ ''const configString = '' @ [quote] @ [] @ [quote] @ '';'' @ [newline]
                   @ ''module.exports = { _0xb4a0, configString };'' @ [newline])))"
proof -
  have a1: "snd (config_str doc_ok) = Some ''abc123''"
    by code_simp
  note t1 = config_payload_exact[of doc_ok, THEN conjunct1, rule_format, OF a1]
  have k5: "5 < length ''abc123''" by simp
  note t1c = t1[THEN conjunct2, THEN conjunct2, rule_format, OF k5]
  have d2: "doc_ok = (''<script>'' @ sample_table @ sample_decoder @ sample_shuffle)
                 @ config_open @ ''abc123'' @ config_close @ ''</script>''"
    by (simp add: doc_ok_def sample_config_def)
  have n2: "newline \<notin> set ''abc123''"
    by (simp add: newline_def)
  have nq: "quote \<notin> set ''abc123''"
    by (simp add: quote_def)
  note q2 = no_quote_no_close[OF nq]
  have f2: "find_str doc_ok config_open 0
            = Some (length (''<script>'' @ sample_table @ sample_decoder @ sample_shuffle))"
    by code_simp
  note b2 = no_config_before[OF f2]
  note a2 = conjI[OF d2 conjI[OF n2 conjI[OF q2 b2]]]
  note t2 = config_payload_exact[of doc_ok, THEN conjunct2, THEN conjunct1, rule_format, OF a2]
  have d3: "doc_empty_payload = (sample_table @ sample_decoder @ sample_shuffle) @ config_open
                            @ config_close @ []"
    by (simp add: doc_empty_payload_def sample_config_def)
  have f3: "find_str doc_empty_payload config_open 0
            = Some (length (sample_table @ sample_decoder @ sample_shuffle))"
    by code_simp
  note b3 = no_config_before[OF f3]
  have h3: "files (world_of doc_empty_payload) html_path = Some doc_empty_payload"
    by (simp add: world_of_def paths_distinct)
  have s1: "snd (func_8b05 doc_empty_payload) = Some sample_table" by code_simp
  have s2: "snd (func_b4a0 doc_empty_payload) = Some sample_decoder" by code_simp
  have s3: "snd (shuffle_iife doc_empty_payload) = Some sample_shuffle" by code_simp
  note a3 = conjI[OF d3 conjI[OF b3 conjI[OF h3 conjI[OF s1 conjI[OF s2 s3]]]]]
  note t3 = config_payload_exact[of doc_empty_payload, THEN conjunct2, THEN conjunct2,
      rule_format, OF a3]
  show ?thesis
    by (rule conjI[OF a1 conjI[OF t1[THEN conjunct1] conjI[OF t1[THEN conjunct2, THEN conjunct1]
          conjI[OF t1c conjI[OF d2 conjI[OF nq conjI[OF f2 conjI[OF t2 conjI[OF d3 conjI[OF f3
          conjI[OF h3 conjI[OF s1 conjI[OF s2 conjI[OF s3 t3]]]]]]]]]]]]]])
qed

section \<open>Facts about the messages of a run\<close>

lemma func_8b05_found: "snd (func_8b05 c) = Some f \<Longrightarrow> fst (func_8b05 c) = []"
  by (simp add: func_8b05_def split: option.splits)

lemma func_b4a0_found: "snd (func_b4a0 c) = Some f \<Longrightarrow> fst (func_b4a0 c) = []"
  using func_b4a0_cases[of c] by auto

lemma config_str_found: "snd (config_str c) = Some f \<Longrightarrow> fst (config_str c) = []"
  by (simp add: config_str_def split: option.splits)

lemma shuffle_iife_found:
  "snd (shuffle_iife c) = Some f \<Longrightarrow>
     fst (shuffle_iife c)
       = (if search pat_shuffle c = None then [''Could not find shuffle IIFE''] else [])"
  by (auto simp: shuffle_iife_def split: option.splits)

lemma func_8b05_missing:
  "snd (func_8b05 c) = None \<Longrightarrow> fst (func_8b05 c) = [''Could not find _0x8b05 function'']"
  by (simp add: func_8b05_def split: option.splits)

lemma func_b4a0_missing:
  "snd (func_b4a0 c) = None \<Longrightarrow>
     fst (func_b4a0 c) = [''Could not find end of _0xb4a0'']
     \<or> fst (func_b4a0 c) = [''Could not find _0xb4a0 function'']"
  using func_b4a0_cases[of c] by auto

lemma shuffle_iife_missing:
  "snd (shuffle_iife c) = None \<Longrightarrow>
     fst (shuffle_iife c) = [''Could not find shuffle IIFE'']
     \<or> fst (shuffle_iife c)
         = [''Could not find shuffle IIFE'', ''Could not find end of shuffle IIFE'']"
  using shuffle_iife_cases[of c] by auto

lemma config_str_missing:
  "snd (config_str c) = None \<Longrightarrow> fst (config_str c) = [''Could not find config string'']"
  by (simp add: config_str_def split: option.splits)

lemma success_not_diagnostic:
  "success_message \<noteq> ''Could not find _0x8b05 function''"
  "success_message \<noteq> ''Could not find end of _0xb4a0''"
  "success_message \<noteq> ''Could not find _0xb4a0 function''"
  "success_message \<noteq> ''Could not find shuffle IIFE''"
  "success_message \<noteq> ''Could not find end of shuffle IIFE''"
  "success_message \<noteq> ''Could not find config string''"
  by (simp_all add: success_message_def)

lemma run_succeeded:
  assumes "snd (func_8b05 c) = Some f1" "snd (func_b4a0 c) = Some f2"
    "snd (shuffle_iife c) = Some f3" "snd (config_str c) = Some cfg"
  shows "console (extract_from c w)
         = console w @ (if search pat_shuffle c = None then [''Could not find shuffle IIFE'']
                        else []) @ [success_message]"
  unfolding run_ok(2)[OF assms] func_8b05_found[OF assms(1)] func_b4a0_found[OF assms(2)]
    shuffle_iife_found[OF assms(3)] config_str_found[OF assms(4)]
  by simp

lemma run_failed:
  assumes "snd (func_8b05 c) = None \<or> snd (func_b4a0 c) = None
           \<or> snd (shuffle_iife c) = None \<or> snd (config_str c) = None"
  shows "\<exists>ms. ms \<in> set [[''Could not find _0x8b05 function''],
                         [''Could not find end of _0xb4a0''],
                         [''Could not find _0xb4a0 function''],
                         [''Could not find shuffle IIFE''],
                         [''Could not find shuffle IIFE'', ''Could not find end of shuffle IIFE''],
                         [''Could not find config string''],
                         [''Could not find shuffle IIFE'', ''Could not find config string'']]
              \<and> (\<forall>w. console (extract_from c w) = console w @ ms)"
proof (cases "snd (func_8b05 c)")
  case None
  have "\<forall>w. console (extract_from c w) = console w @ [''Could not find _0x8b05 function'']"
    using run_fail_console(1)[OF None] func_8b05_missing[OF None] by simp
  then show ?thesis by (intro exI[of _ "[''Could not find _0x8b05 function'']"]) simp
next
  case f1: (Some f1)
  note e1 = func_8b05_found[OF f1]
  show ?thesis
  proof (cases "snd (func_b4a0 c)")
    case None
    have c: "\<forall>w. console (extract_from c w) = console w @ fst (func_b4a0 c)"
      using run_fail_console(2)[OF f1 None] e1 by simp
    from func_b4a0_missing[OF None] show ?thesis
    proof
      assume m: "fst (func_b4a0 c) = [''Could not find end of _0xb4a0'']"
      show ?thesis
        using c unfolding m by (intro exI[of _ "[''Could not find end of _0xb4a0'']"]) simp
    next
      assume m: "fst (func_b4a0 c) = [''Could not find _0xb4a0 function'']"
      show ?thesis
        using c unfolding m by (intro exI[of _ "[''Could not find _0xb4a0 function'']"]) simp
    qed
  next
    case f2: (Some f2)
    note e2 = func_b4a0_found[OF f2]
    show ?thesis
    proof (cases "snd (shuffle_iife c)")
      case None
      have c: "\<forall>w. console (extract_from c w) = console w @ fst (shuffle_iife c)"
        using run_fail_console(3)[OF f1 f2 None] e1 e2 by simp
      from shuffle_iife_missing[OF None] show ?thesis
      proof
        assume m: "fst (shuffle_iife c) = [''Could not find shuffle IIFE'']"
        show ?thesis
          using c unfolding m by (intro exI[of _ "[''Could not find shuffle IIFE'']"]) simp
      next
        assume m: "fst (shuffle_iife c)
          = [''Could not find shuffle IIFE'', ''Could not find end of shuffle IIFE'']"
        show ?thesis
          using c unfolding m
          by (intro exI[of _ "[''Could not find shuffle IIFE'',
                               ''Could not find end of shuffle IIFE'']"]) simp
      qed
    next
      case f3: (Some f3)
      with f1 f2 assms have n4: "snd (config_str c) = None" by simp
      have c: "\<forall>w. console (extract_from c w)
                 = console w @ fst (shuffle_iife c) @ [''Could not find config string'']"
        using run_fail_console(4)[OF f1 f2 f3 n4] e1 e2 config_str_missing[OF n4] by simp
      show ?thesis
      proof (cases "search pat_shuffle c = None")
        case True
        have m: "fst (shuffle_iife c) = [''Could not find shuffle IIFE'']"
          using shuffle_iife_found[OF f3] True by simp
        show ?thesis
          using c unfolding m
          by (intro exI[of _ "[''Could not find shuffle IIFE'',
                               ''Could not find config string'']"]) simp
      next
        case False
        have m: "fst (shuffle_iife c) = []"
          using shuffle_iife_found[OF f3] False by simp
        show ?thesis
          using c unfolding m by (intro exI[of _ "[''Could not find config string'']"]) simp
      qed
    qed
  qed
qed

text \<open>
  What a run prints, in full: after success, the success message, preceded by the
  shuffle diagnostic when the shuffle pattern did not match; after failure, one of seven
  lists of diagnostics, with every file as it was.
\<close>

lemma run_messages:
  assumes "files w html_path = Some content"
  shows "extract_decoder w = Inr (extract_from content w)
    \<and> (snd (func_8b05 content) \<noteq> None \<and> snd (func_b4a0 content) \<noteq> None
        \<and> snd (shuffle_iife content) \<noteq> None \<and> snd (config_str content) \<noteq> None \<longrightarrow>
        console (extract_from content w)
          = console w @ (if search pat_shuffle content = None
                         then [''Could not find shuffle IIFE''] else []) @ [success_message]
        \<and> files (extract_from content w) output_path \<noteq> None)
    \<and> (snd (func_8b05 content) = None \<or> snd (func_b4a0 content) = None
        \<or> snd (shuffle_iife content) = None \<or> snd (config_str content) = None \<longrightarrow>
        files (extract_from content w) = files w
        \<and> (\<exists>ms. ms \<in> set [[''Could not find _0x8b05 function''],
                         [''Could not find end of _0xb4a0''],
                         [''Could not find _0xb4a0 function''],
                         [''Could not find shuffle IIFE''],
                         [''Could not find shuffle IIFE'', ''Could not find end of shuffle IIFE''],
                         [''Could not find config string''],
                         [''Could not find shuffle IIFE'', ''Could not find config string'']]
              \<and> console (extract_from content w) = console w @ ms))"
proof (intro conjI)
  show "extract_decoder w = Inr (extract_from content w)"
    using assms by (simp add: extract_decoder_def)
next
  show "snd (func_8b05 content) \<noteq> None \<and> snd (func_b4a0 content) \<noteq> None
        \<and> snd (shuffle_iife content) \<noteq> None \<and> snd (config_str content) \<noteq> None \<longrightarrow>
        console (extract_from content w)
          = console w @ (if search pat_shuffle content = None
                         then [''Could not find shuffle IIFE''] else []) @ [success_message]
        \<and> files (extract_from content w) output_path \<noteq> None"
  proof (rule impI)
    assume a: "snd (func_8b05 content) \<noteq> None \<and> snd (func_b4a0 content) \<noteq> None
        \<and> snd (shuffle_iife content) \<noteq> None \<and> snd (config_str content) \<noteq> None"
    then obtain f1 f2 f3 cfg where s: "snd (func_8b05 content) = Some f1"
      "snd (func_b4a0 content) = Some f2" "snd (shuffle_iife content) = Some f3"
      "snd (config_str content) = Some cfg"
      by fastforce
    have o: "files (extract_from content w) output_path \<noteq> None"
      unfolding run_ok(1)[OF s] by simp
    show "console (extract_from content w)
          = console w @ (if search pat_shuffle content = None
                         then [''Could not find shuffle IIFE''] else []) @ [success_message]
        \<and> files (extract_from content w) output_path \<noteq> None"
      by (rule conjI[OF run_succeeded[OF s] o])
  qed
next
  show "snd (func_8b05 content) = None \<or> snd (func_b4a0 content) = None
        \<or> snd (shuffle_iife content) = None \<or> snd (config_str content) = None \<longrightarrow>
        files (extract_from content w) = files w
        \<and> (\<exists>ms. ms \<in> set [[''Could not find _0x8b05 function''],
                         [''Could not find end of _0xb4a0''],
                         [''Could not find _0xb4a0 function''],
                         [''Could not find shuffle IIFE''],
                         [''Could not find shuffle IIFE'', ''Could not find end of shuffle IIFE''],
                         [''Could not find config string''],
                         [''Could not find shuffle IIFE'', ''Could not find config string'']]
              \<and> console (extract_from content w) = console w @ ms)"
  proof (rule impI)
    assume a: "snd (func_8b05 content) = None \<or> snd (func_b4a0 content) = None
        \<or> snd (shuffle_iife content) = None \<or> snd (config_str content) = None"
    from run_failed[OF a] obtain ms where ms:
      "ms \<in> set [[''Could not find _0x8b05 function''],
                         [''Could not find end of _0xb4a0''],
                         [''Could not find _0xb4a0 function''],
                         [''Could not find shuffle IIFE''],
                         [''Could not find shuffle IIFE'', ''Could not find end of shuffle IIFE''],
                         [''Could not find config string''],
                         [''Could not find shuffle IIFE'', ''Could not find config string'']]"
      "\<forall>w. console (extract_from content w) = console w @ ms"
      by (elim exE conjE)
    have e: "\<exists>ms. ms \<in> set [[''Could not find _0x8b05 function''],
                         [''Could not find end of _0xb4a0''],
                         [''Could not find _0xb4a0 function''],
                         [''Could not find shuffle IIFE''],
                         [''Could not find shuffle IIFE'', ''Could not find end of shuffle IIFE''],
                         [''Could not find config string''],
                         [''Could not find shuffle IIFE'', ''Could not find config string'']]
              \<and> console (extract_from content w) = console w @ ms"
      by (rule exI[of _ ms]) (rule conjI[OF ms(1) ms(2)[rule_format]])
    show "files (extract_from content w) = files w
        \<and> (\<exists>ms. ms \<in> set [[''Could not find _0x8b05 function''],
                         [''Could not find end of _0xb4a0''],
                         [''Could not find _0xb4a0 function''],
                         [''Could not find shuffle IIFE''],
                         [''Could not find shuffle IIFE'', ''Could not find end of shuffle IIFE''],
                         [''Could not find config string''],
                         [''Could not find shuffle IIFE'', ''Could not find config string'']]
              \<and> console (extract_from content w) = console w @ ms)"
      by (rule conjI[OF run_fail_files[OF a] e])
  qed
qed

lemma run_messages_examples:
  "files (world_of doc_ok) html_path = Some doc_ok
   \<and> (snd (func_8b05 doc_ok) \<noteq> None \<and> snd (func_b4a0 doc_ok) \<noteq> None
        \<and> snd (shuffle_iife doc_ok) \<noteq> None \<and> snd (config_str doc_ok) \<noteq> None)
   \<and> (console (extract_from doc_ok (world_of doc_ok))
          = console (world_of doc_ok) @ (if search pat_shuffle doc_ok = None
                         then [''Could not find shuffle IIFE''] else []) @ [success_message]
        \<and> files (extract_from doc_ok (world_of doc_ok)) output_path \<noteq> None)
   \<and> files (world_of doc_no_config) html_path = Some doc_no_config
   \<and> (snd (func_8b05 doc_no_config) = None \<or> snd (func_b4a0 doc_no_config) = None
        \<or> snd (shuffle_iife doc_no_config) = None \<or> snd (config_str doc_no_config) = None)
   \<and> (files (extract_from doc_no_config (world_of doc_no_config)) = files (world_of doc_no_config)
        \<and> (\<exists>ms. ms \<in> set [[''Could not find _0x8b05 function''],
                         [''Could not find end of _0xb4a0''],
                         [''Could not find _0xb4a0 function''],
                         [''Could not find shuffle IIFE''],
                         [''Could not find shuffle IIFE'', ''Could not find end of shuffle IIFE''],
                         [''Could not find config string''],
                         [''Could not find shuffle IIFE'', ''Could not find config string'']]
              \<and> console (extract_from doc_no_config (world_of doc_no_config))
                  = console (world_of doc_no_config) @ ms))"
proof -
  have h1: "files (world_of doc_ok) html_path = Some doc_ok"
    by (simp add: world_of_def paths_distinct)
  have a1: "snd (func_8b05 doc_ok) \<noteq> None \<and> snd (func_b4a0 doc_ok) \<noteq> None
        \<and> snd (shuffle_iife doc_ok) \<noteq> None \<and> snd (config_str doc_ok) \<noteq> None"
    by code_simp
  note t1 = run_messages[OF h1, THEN conjunct2, THEN conjunct1, rule_format, OF a1]
  have h2: "files (world_of doc_no_config) html_path = Some doc_no_config"
    by (simp add: world_of_def paths_distinct)
  have a2: "snd (func_8b05 doc_no_config) = None \<or> snd (func_b4a0 doc_no_config) = None
        \<or> snd (shuffle_iife doc_no_config) = None \<or> snd (config_str doc_no_config) = None"
    by code_simp
  note t2 = run_messages[OF h2, THEN conjunct2, THEN conjunct2, rule_format, OF a2]
  show ?thesis
    by (rule conjI[OF h1 conjI[OF a1 conjI[OF t1 conjI[OF h2 conjI[OF a2 t2]]]]])
qed

section \<open>Messages of a successful run\<close>

text \<open>
  C6. A successful run should emit exactly one message, naming the output path, and no
  failure diagnostic. The script departs from this when the shuffle routine is found by
  its positional fallback: on the document below the run succeeds and writes the output
  file, yet the console holds the diagnostic \<^verbatim>\<open>Could not find shuffle IIFE\<close> before
  the success message. The decoder block, which has the same chain of fallbacks, prints
  nothing when a fallback succeeds.
\<close>

theorem one_message_counterexample:
  "extract_decoder (world_of doc_shuffle_fallback)
     = Inr (extract_from doc_shuffle_fallback (world_of doc_shuffle_fallback))
   \<and> console (extract_from doc_shuffle_fallback (world_of doc_shuffle_fallback))
     = [''Could not find shuffle IIFE'', success_message]
   \<and> files (extract_from doc_shuffle_fallback (world_of doc_shuffle_fallback)) output_path
     = Some (sample_table @ [newline] @ sample_decoder @ [newline] @ loose_shuffle @ [newline]
             @ ''const configString = '' @ [quote] @ ''abc123'' @ [quote] @ '';'' @ [newline]
             @ ''module.exports = { _0xb4a0, configString };'' @ [newline])"
proof -
  have h: "files (world_of doc_shuffle_fallback) html_path = Some doc_shuffle_fallback"
    by (simp add: world_of_def paths_distinct)
  have r: "extract_decoder (world_of doc_shuffle_fallback)
     = Inr (extract_from doc_shuffle_fallback (world_of doc_shuffle_fallback))"
    using h by (simp add: extract_decoder_def)
  have s1: "snd (func_8b05 doc_shuffle_fallback) = Some sample_table" by code_simp
  have s2: "snd (func_b4a0 doc_shuffle_fallback) = Some sample_decoder" by code_simp
  have s3: "snd (shuffle_iife doc_shuffle_fallback) = Some loose_shuffle" by code_simp
  have s4: "snd (config_str doc_shuffle_fallback) = Some ''abc123''" by code_simp
  have n: "search pat_shuffle doc_shuffle_fallback = None" by code_simp
  have c: "console (extract_from doc_shuffle_fallback (world_of doc_shuffle_fallback))
     = [''Could not find shuffle IIFE'', success_message]"
    unfolding run_succeeded[OF s1 s2 s3 s4] using n by (simp add: world_of_def)
  have f: "files (extract_from doc_shuffle_fallback (world_of doc_shuffle_fallback)) output_path
     = Some (sample_table @ [newline] @ sample_decoder @ [newline] @ loose_shuffle @ [newline]
             @ ''const configString = '' @ [quote] @ ''abc123'' @ [quote] @ '';'' @ [newline]
             @ ''module.exports = { _0xb4a0, configString };'' @ [newline])"
    unfolding run_ok(1)[OF s1 s2 s3 s4] by simp
  show ?thesis by (rule conjI[OF r conjI[OF c f]])
qed

section \<open>Determinism\<close>

text \<open>
  C8. Two runs on documents with identical content have the same outcome, whatever else
  the two worlds hold: both fail or both succeed, they print the same messages, and on
  success they leave the same content in the output file.
\<close>

theorem extract_deterministic:
  assumes "files w1 html_path = Some content" and "files w2 html_path = Some content"
  shows "extract_decoder w1 = Inr (extract_from content w1)
    \<and> extract_decoder w2 = Inr (extract_from content w2)
    \<and> (\<exists>ms. console (extract_from content w1) = console w1 @ ms
            \<and> console (extract_from content w2) = console w2 @ ms
            \<and> (files (extract_from content w1) = files w1
                \<and> files (extract_from content w2) = files w2
                \<and> success_message \<notin> set ms
               \<or> (\<exists>out. files (extract_from content w1) = (files w1)(output_path \<mapsto> out)
                      \<and> files (extract_from content w2) = (files w2)(output_path \<mapsto> out))
                 \<and> ms \<noteq> [] \<and> last ms = success_message))"
proof (intro conjI)
  show "extract_decoder w1 = Inr (extract_from content w1)"
    using assms(1) by (simp add: extract_decoder_def)
  show "extract_decoder w2 = Inr (extract_from content w2)"
    using assms(2) by (simp add: extract_decoder_def)
  show "\<exists>ms. console (extract_from content w1) = console w1 @ ms
            \<and> console (extract_from content w2) = console w2 @ ms
            \<and> (files (extract_from content w1) = files w1
                \<and> files (extract_from content w2) = files w2
                \<and> success_message \<notin> set ms
               \<or> (\<exists>out. files (extract_from content w1) = (files w1)(output_path \<mapsto> out)
                      \<and> files (extract_from content w2) = (files w2)(output_path \<mapsto> out))
                 \<and> ms \<noteq> [] \<and> last ms = success_message)"
  proof (cases "snd (func_8b05 content) = None \<or> snd (func_b4a0 content) = None
           \<or> snd (shuffle_iife content) = None \<or> snd (config_str content) = None")
    case True
    from run_failed[OF True] obtain ms where ms:
      "ms \<in> set [[''Could not find _0x8b05 function''],
                         [''Could not find end of _0xb4a0''],
                         [''Could not find _0xb4a0 function''],
                         [''Could not find shuffle IIFE''],
                         [''Could not find shuffle IIFE'', ''Could not find end of shuffle IIFE''],
                         [''Could not find config string''],
                         [''Could not find shuffle IIFE'', ''Could not find config string'']]"
      "\<forall>w. console (extract_from content w) = console w @ ms"
      by (elim exE conjE)
    have ns: "success_message \<notin> set ms"
      using ms(1) success_not_diagnostic by auto
    have "console (extract_from content w1) = console w1 @ ms
            \<and> console (extract_from content w2) = console w2 @ ms
            \<and> (files (extract_from content w1) = files w1
                \<and> files (extract_from content w2) = files w2
                \<and> success_message \<notin> set ms
               \<or> (\<exists>out. files (extract_from content w1) = (files w1)(output_path \<mapsto> out)
                      \<and> files (extract_from content w2) = (files w2)(output_path \<mapsto> out))
                 \<and> ms \<noteq> [] \<and> last ms = success_message)"
      by (rule conjI[OF ms(2)[rule_format] conjI[OF ms(2)[rule_format]
            disjI1[OF conjI[OF run_fail_files[OF True] conjI[OF run_fail_files[OF True] ns]]]]])
    then show ?thesis by (rule exI)
  next
    case False
    then obtain f1 f2 f3 cfg where s: "snd (func_8b05 content) = Some f1"
      "snd (func_b4a0 content) = Some f2" "snd (shuffle_iife content) = Some f3"
      "snd (config_str content) = Some cfg"
      by fastforce
    let ?ms = "(if search pat_shuffle content = None then [''Could not find shuffle IIFE'']
                else []) @ [success_message]"
    have l: "?ms \<noteq> [] \<and> last ?ms = success_message" by simp
    have o: "\<exists>out. files (extract_from content w1) = (files w1)(output_path \<mapsto> out)
                      \<and> files (extract_from content w2) = (files w2)(output_path \<mapsto> out)"
      by (rule exI, rule conjI[OF run_ok(1)[OF s] run_ok(1)[OF s]])
    have "console (extract_from content w1) = console w1 @ ?ms
            \<and> console (extract_from content w2) = console w2 @ ?ms
            \<and> (files (extract_from content w1) = files w1
                \<and> files (extract_from content w2) = files w2
                \<and> success_message \<notin> set ?ms
               \<or> (\<exists>out. files (extract_from content w1) = (files w1)(output_path \<mapsto> out)
                      \<and> files (extract_from content w2) = (files w2)(output_path \<mapsto> out))
                 \<and> ?ms \<noteq> [] \<and> last ?ms = success_message)"
      by (rule conjI[OF run_succeeded[OF s] conjI[OF run_succeeded[OF s]
            disjI2[OF conjI[OF o l]]]])
    then show ?thesis by (rule exI)
  qed
qed

theorem extract_deterministic_witness:
  "files (world_of doc_ok) html_path = Some doc_ok
   \<and> files (bare_world doc_ok) html_path = Some doc_ok
   \<and> (console (world_of doc_ok) \<noteq> console (bare_world doc_ok)
      \<and> files (world_of doc_ok) output_path \<noteq> files (bare_world doc_ok) output_path)
   \<and> (extract_decoder (world_of doc_ok) = Inr (extract_from doc_ok (world_of doc_ok))
    \<and> extract_decoder (bare_world doc_ok) = Inr (extract_from doc_ok (bare_world doc_ok))
    \<and> (\<exists>ms. console (extract_from doc_ok (world_of doc_ok)) = console (world_of doc_ok) @ ms
            \<and> console (extract_from doc_ok (bare_world doc_ok)) = console (bare_world doc_ok) @ ms
            \<and> (files (extract_from doc_ok (world_of doc_ok)) = files (world_of doc_ok)
                \<and> files (extract_from doc_ok (bare_world doc_ok)) = files (bare_world doc_ok)
                \<and> success_message \<notin> set ms
               \<or> (\<exists>out. files (extract_from doc_ok (world_of doc_ok))
                          = (files (world_of doc_ok))(output_path \<mapsto> out)
                      \<and> files (extract_from doc_ok (bare_world doc_ok))
                          = (files (bare_world doc_ok))(output_path \<mapsto> out))
                 \<and> ms \<noteq> [] \<and> last ms = success_message)))"
proof -
  have h1: "files (world_of doc_ok) html_path = Some doc_ok"
    by (simp add: world_of_def paths_distinct)
  have h2: "files (bare_world doc_ok) html_path = Some doc_ok"
    by (simp add: bare_world_def)
  have d: "console (world_of doc_ok) \<noteq> console (bare_world doc_ok)
      \<and> files (world_of doc_ok) output_path \<noteq> files (bare_world doc_ok) output_path"
    using paths_distinct by (simp add: world_of_def bare_world_def)
  note t = extract_deterministic[OF h1 h2]
  show ?thesis
    by (rule conjI[OF h1 conjI[OF h2 conjI[OF d t]]])
qed

section \<open>Leftmost matches\<close>

lemma search_Some_leftmost:
  assumes "search pat c = Some m"
  shows "\<exists>k\<le>length c. match_here pat (drop k c) = Some m
           \<and> prefix (group0 m) (drop k c)
           \<and> (\<forall>j<k. match_here pat (drop j c) = None)"
proof -
  from search_Some[OF assms] obtain k where k: "k \<le> length c"
    "match_here pat (drop k c) = Some m" "\<forall>j<k. match_here pat (drop j c) = None"
    by blast
  have "prefix (group0 m) (drop k c)"
    unfolding group0_def by (rule match_here_prefix[OF k(2)])
  with k show ?thesis by blast
qed

lemma func_8b05_from_search:
  assumes "snd (func_8b05 c) = Some f"
  shows "\<exists>m. search pat_8b05 c = Some m \<and> f = group0 m"
  using assms by (auto simp: func_8b05_def split: option.splits)

lemma config_str_from_search:
  assumes "snd (config_str c) = Some p"
  shows "\<exists>m. search pat_config c = Some m \<and> p = group1 m"
  using assms by (auto simp: config_str_def split: option.splits)

lemma func_b4a0_from_search:
  assumes "snd (func_b4a0 c) = Some f"
  shows "(\<exists>m. search pat_b4a0 c = Some m \<and> f = group0 m)
       \<or> (\<exists>m. search pat_b4a0 c = None \<and> search pat_b4a0_alt c = Some m \<and> f = group0 m)
       \<or> (\<exists>i j. search pat_b4a0 c = None \<and> search pat_b4a0_alt c = None
              \<and> find_str c b4a0_start 0 = Some i \<and> find_str c shuffle_start i = Some j
              \<and> f = slice c i j)"
proof (cases "search pat_b4a0 c")
  case (Some m)
  with assms func_b4a0_primary[OF Some] show ?thesis by simp
next
  case n1: None
  show ?thesis
  proof (cases "search pat_b4a0_alt c")
    case (Some m)
    with assms func_b4a0_alt[OF n1 Some] n1 show ?thesis by simp
  next
    case n2: None
    show ?thesis
    proof (cases "find_str c b4a0_start 0")
      case None
      with assms func_b4a0_no_start[OF None] show ?thesis by simp
    next
      case i: (Some i)
      show ?thesis
      proof (cases "find_str c shuffle_start i")
        case None
        with assms func_b4a0_no_end[OF n1 n2 i None] show ?thesis by simp
      next
        case (Some j)
        with assms func_b4a0_positional[OF n1 n2 i Some] n1 n2 i show ?thesis by simp
      qed
    qed
  qed
qed

lemma shuffle_iife_from_search:
  assumes "snd (shuffle_iife c) = Some f"
  shows "(\<exists>m. search pat_shuffle c = Some m \<and> f = group0 m)
       \<or> (\<exists>i j. search pat_shuffle c = None
              \<and> find_str c shuffle_start 0 = Some i \<and> find_str c shuffle_next i = Some j
              \<and> f = slice c i j)"
  using assms by (auto simp: shuffle_iife_def split: option.splits)

text \<open>
  C9, as stated, does not hold: the fragment is not always the one determined by the
  first occurrence of its start marker. In the document below the start token of the
  lookup-table function occurs at offsets 0 and 20; the pattern cannot be completed from
  offset 0, where a line break follows, and the fragment extracted starts at offset 20.
\<close>

theorem first_start_marker_counterexample:
  "find_str doc_two_tables table_start 0 = Some 0
   \<and> find_str doc_two_tables table_start 1 = Some 20
   \<and> match_here pat_8b05 doc_two_tables = None
   \<and> func_8b05 doc_two_tables = ([], Some sample_table)
   \<and> slice doc_two_tables 20 72 = sample_table
   \<and> \<not> prefix sample_table doc_two_tables"
  by code_simp

text \<open>
  C9, amended. Every regular-expression search selects the leftmost position of the
  document at which the whole pattern matches; every literal search selects the leftmost
  occurrence of its marker at or after the position it starts from; each fragment is what
  these searches select, and the first matching assignment supplies the configuration
  payload.
\<close>

theorem leftmost_match:
  "(\<forall>pat m. search pat c = Some m \<longrightarrow>
      (\<exists>k\<le>length c. match_here pat (drop k c) = Some m
          \<and> prefix (group0 m) (drop k c)
          \<and> (\<forall>j<k. match_here pat (drop j c) = None)))
   \<and> (\<forall>sub i j. find_str c sub i = Some j \<longrightarrow>
        i \<le> j \<and> j \<le> length c \<and> prefix sub (drop j c)
        \<and> (\<forall>k. i \<le> k \<and> k < j \<longrightarrow> \<not> prefix sub (drop k c)))
   \<and> (\<forall>f. snd (func_8b05 c) = Some f \<longrightarrow>
        (\<exists>m. search pat_8b05 c = Some m \<and> f = group0 m))
   \<and> (\<forall>f. snd (func_b4a0 c) = Some f \<longrightarrow>
        (\<exists>m. search pat_b4a0 c = Some m \<and> f = group0 m)
        \<or> (\<exists>m. search pat_b4a0 c = None \<and> search pat_b4a0_alt c = Some m \<and> f = group0 m)
        \<or> (\<exists>i j. search pat_b4a0 c = None \<and> search pat_b4a0_alt c = None
               \<and> find_str c b4a0_start 0 = Some i \<and> find_str c shuffle_start i = Some j
               \<and> f = slice c i j))
   \<and> (\<forall>f. snd (shuffle_iife c) = Some f \<longrightarrow>
        (\<exists>m. search pat_shuffle c = Some m \<and> f = group0 m)
        \<or> (\<exists>i j. search pat_shuffle c = None
               \<and> find_str c shuffle_start 0 = Some i \<and> find_str c shuffle_next i = Some j
               \<and> f = slice c i j))
   \<and> (\<forall>p. snd (config_str c) = Some p \<longrightarrow>
        (\<exists>m. search pat_config c = Some m \<and> p = group1 m))"
proof (intro conjI)
  show "\<forall>pat m. search pat c = Some m \<longrightarrow>
      (\<exists>k\<le>length c. match_here pat (drop k c) = Some m
          \<and> prefix (group0 m) (drop k c)
          \<and> (\<forall>j<k. match_here pat (drop j c) = None))"
    by (intro allI impI) (rule search_Some_leftmost)
next
  show "\<forall>sub i j. find_str c sub i = Some j \<longrightarrow>
        i \<le> j \<and> j \<le> length c \<and> prefix sub (drop j c)
        \<and> (\<forall>k. i \<le> k \<and> k < j \<longrightarrow> \<not> prefix sub (drop k c))"
    by (intro allI impI) (rule find_str_Some)
next
  show "\<forall>f. snd (func_8b05 c) = Some f \<longrightarrow>
        (\<exists>m. search pat_8b05 c = Some m \<and> f = group0 m)"
    by (intro allI impI) (rule func_8b05_from_search)
next
  show "\<forall>f. snd (func_b4a0 c) = Some f \<longrightarrow>
        (\<exists>m. search pat_b4a0 c = Some m \<and> f = group0 m)
        \<or> (\<exists>m. search pat_b4a0 c = None \<and> search pat_b4a0_alt c = Some m \<and> f = group0 m)
        \<or> (\<exists>i j. search pat_b4a0 c = None \<and> search pat_b4a0_alt c = None
               \<and> find_str c b4a0_start 0 = Some i \<and> find_str c shuffle_start i = Some j
               \<and> f = slice c i j)"
    by (intro allI impI) (rule func_b4a0_from_search)
next
  show "\<forall>f. snd (shuffle_iife c) = Some f \<longrightarrow>
        (\<exists>m. search pat_shuffle c = Some m \<and> f = group0 m)
        \<or> (\<exists>i j. search pat_shuffle c = None
               \<and> find_str c shuffle_start 0 = Some i \<and> find_str c shuffle_next i = Some j
               \<and> f = slice c i j)"
    by (intro allI impI) (rule shuffle_iife_from_search)
next
  show "\<forall>p. snd (config_str c) = Some p \<longrightarrow>
        (\<exists>m. search pat_config c = Some m \<and> p = group1 m)"
    by (intro allI impI) (rule config_str_from_search)
qed

theorem leftmost_match_witness:
  "search pat_8b05 doc_two_tables = Some [table_start, ''return [1,2,3];'', table_end]
   \<and> (\<exists>k\<le>length doc_two_tables.
         match_here pat_8b05 (drop k doc_two_tables)
           = Some [table_start, ''return [1,2,3];'', table_end]
         \<and> prefix (group0 [table_start, ''return [1,2,3];'', table_end]) (drop k doc_two_tables)
         \<and> (\<forall>j<k. match_here pat_8b05 (drop j doc_two_tables) = None))
   \<and> find_str doc_two_tables table_start 1 = Some 20
   \<and> 1 \<le> (20::nat) \<and> 20 \<le> length doc_two_tables
   \<and> prefix table_start (drop 20 doc_two_tables)
   \<and> \<not> prefix table_start (drop 10 doc_two_tables)
   \<and> snd (func_8b05 doc_two_tables) = Some sample_table
   \<and> (\<exists>m. search pat_8b05 doc_two_tables = Some m \<and> sample_table = group0 m)
   \<and> snd (func_b4a0 doc_positional) = Some (loose_decoder @ ''var x=1;'')
   \<and> ((\<exists>m. search pat_b4a0 doc_positional = Some m \<and> loose_decoder @ ''var x=1;'' = group0 m)
        \<or> (\<exists>m. search pat_b4a0 doc_positional = None
               \<and> search pat_b4a0_alt doc_positional = Some m
               \<and> loose_decoder @ ''var x=1;'' = group0 m)
        \<or> (\<exists>i j. search pat_b4a0 doc_positional = None
               \<and> search pat_b4a0_alt doc_positional = None
               \<and> find_str doc_positional b4a0_start 0 = Some i
               \<and> find_str doc_positional shuffle_start i = Some j
               \<and> loose_decoder @ ''var x=1;'' = slice doc_positional i j))
   \<and> snd (shuffle_iife doc_shuffle_fallback) = Some loose_shuffle
   \<and> ((\<exists>m. search pat_shuffle doc_shuffle_fallback = Some m \<and> loose_shuffle = group0 m)
        \<or> (\<exists>i j. search pat_shuffle doc_shuffle_fallback = None
               \<and> find_str doc_shuffle_fallback shuffle_start 0 = Some i
               \<and> find_str doc_shuffle_fallback shuffle_next i = Some j
               \<and> loose_shuffle = slice doc_shuffle_fallback i j))
   \<and> snd (config_str doc_ok) = Some ''abc123''
   \<and> (\<exists>m. search pat_config doc_ok = Some m \<and> ''abc123'' = group1 m)"
proof -
  have a1: "search pat_8b05 doc_two_tables = Some [table_start, ''return [1,2,3];'', table_end]"
    by code_simp
  note t1 = leftmost_match[of doc_two_tables, THEN conjunct1, rule_format, OF a1]
  have a2: "find_str doc_two_tables table_start 1 = Some 20"
    by code_simp
  note t2 = leftmost_match[of doc_two_tables, THEN conjunct2, THEN conjunct1, rule_format,
      OF a2]
  have k10: "1 \<le> (10::nat) \<and> (10::nat) < 20" by simp
  note t2d = t2[THEN conjunct2, THEN conjunct2, THEN conjunct2, rule_format, OF k10]
  have a3: "snd (func_8b05 doc_two_tables) = Some sample_table"
    by code_simp
  note t3 = leftmost_match[of doc_two_tables, THEN conjunct2, THEN conjunct2, THEN conjunct1,
      rule_format, OF a3]
  have a4: "snd (func_b4a0 doc_positional) = Some (loose_decoder @ ''var x=1;'')"
    by code_simp
  note t4 = leftmost_match[of doc_positional, THEN conjunct2, THEN conjunct2, THEN conjunct2,
      THEN conjunct1, rule_format, OF a4]
  have a5: "snd (shuffle_iife doc_shuffle_fallback) = Some loose_shuffle"
    by code_simp
  note t5 = leftmost_match[of doc_shuffle_fallback, THEN conjunct2, THEN conjunct2,
      THEN conjunct2, THEN conjunct2, THEN conjunct1, rule_format, OF a5]
  have a6: "snd (config_str doc_ok) = Some ''abc123''"
    by code_simp
  note t6 = leftmost_match[of doc_ok, THEN conjunct2, THEN conjunct2, THEN conjunct2,
      THEN conjunct2, THEN conjunct2, rule_format, OF a6]
  show ?thesis
    by (rule conjI[OF a1 conjI[OF t1 conjI[OF a2 conjI[OF t2[THEN conjunct1]
          conjI[OF t2[THEN conjunct2, THEN conjunct1]
          conjI[OF t2[THEN conjunct2, THEN conjunct2, THEN conjunct1]
          conjI[OF t2d conjI[OF a3 conjI[OF t3
          conjI[OF a4 conjI[OF t4 conjI[OF a5 conjI[OF t5 conjI[OF a6 t6]]]]]]]]]]]]]])
qed

end
